theory Spec2Isabelle
  imports Main "HOL-Library.AList" "HOL-Library.List_Lexorder" "HOL-Library.Log_Nat"
begin

section \<open>JavaScript strings\<close>

text \<open>
  A JavaScript string is a sequence of UTF-16 code units.  The report parser replaces the
  code units U+2013 and U+2014, so the 8-bit characters of HOL are not enough: a string is
  a list of code unit numbers here, and \<open>js\<close> turns a HOL literal into one.
\<close>

type_synonym jschar = nat
type_synonym jsstring = "jschar list"

definition js :: "string \<Rightarrow> jsstring" where
  "js s = map of_char s"

text \<open>\<open>WhiteSpace\<close> and \<open>LineTerminator\<close> of ECMAScript: what \<open>trim\<close> strips and \<open>\s\<close> matches.\<close>

definition isSpace :: "jschar \<Rightarrow> bool" where
  "isSpace c \<longleftrightarrow>
     (9 \<le> c \<and> c \<le> 13) \<or> c = 32 \<or> c = 160 \<or> c = 5760 \<or> (8192 \<le> c \<and> c \<le> 8202) \<or>
     c = 8232 \<or> c = 8233 \<or> c = 8239 \<or> c = 8287 \<or> c = 12288 \<or> c = 65279"

definition isDigit :: "jschar \<Rightarrow> bool" where
  "isDigit c \<longleftrightarrow> 48 \<le> c \<and> c \<le> 57"

text \<open>The dot of a regular expression: any code unit but a line terminator.\<close>

definition isDot :: "jschar \<Rightarrow> bool" where
  "isDot c \<longleftrightarrow> c \<noteq> 10 \<and> c \<noteq> 13 \<and> c \<noteq> 8232 \<and> c \<noteq> 8233"

definition trimStart :: "jsstring \<Rightarrow> jsstring" where
  "trimStart s = dropWhile isSpace s"

definition trimEnd :: "jsstring \<Rightarrow> jsstring" where
  "trimEnd s = rev (dropWhile isSpace (rev s))"

definition trim :: "jsstring \<Rightarrow> jsstring" where
  "trim s = trimEnd (trimStart s)"

definition startsWith :: "jsstring \<Rightarrow> jsstring \<Rightarrow> bool" where
  "startsWith s p \<longleftrightarrow> take (length p) s = p"

text \<open>\<open>s.split(d)\<close> for a one-unit separator: never empty, \<open>"".split(d)\<close> is \<open>[""]\<close>.\<close>

fun split :: "jschar \<Rightarrow> jsstring \<Rightarrow> jsstring list" where
  "split d [] = [[]]"
| "split d (x # xs) =
     (if x = d then [] # split d xs
      else (let r = split d xs in (x # hd r) # tl r))"

fun join :: "jsstring \<Rightarrow> jsstring list \<Rightarrow> jsstring" where
  "join d [] = []"
| "join d [w] = w"
| "join d (w # v # ws) = w @ d @ join d (v # ws)"

text \<open>
  \<open>c.toUpperCase()\<close> for a string of one code unit.  The ASCII range is written out; the
  Unicode case table for the other code units is not part of the repository and is the
  parameter \<open>uc\<close>.
\<close>

definition toUpperCase1 :: "(jschar \<Rightarrow> jsstring) \<Rightarrow> jschar \<Rightarrow> jsstring" where
  "toUpperCase1 uc c = (if 97 \<le> c \<and> c \<le> 122 then [c - 32] else if c < 128 then [c] else uc c)"

text \<open>Decimal digits of a natural number, as a template literal prints it.\<close>

fun showNat :: "nat \<Rightarrow> jsstring" where
  "showNat n = (if n < 10 then [48 + n] else showNat (n div 10) @ [48 + n mod 10])"

declare showNat.simps [simp del]

text \<open>\<open>a || d\<close> on an optional string: the empty string and \<open>undefined\<close> are falsy.\<close>

definition orElse :: "jsstring option \<Rightarrow> jsstring \<Rightarrow> jsstring" where
  "orElse a d = (case a of None \<Rightarrow> d | Some s \<Rightarrow> if s = [] then d else s)"

section \<open>Regular expressions\<close>

text \<open>
  The backtracking matcher of ECMAScript for the constructs the source uses.  A matcher
  returns every way to match from a state, in the order backtracking tries them; the
  match is the first.  A state is the position, the rest of the input and the captures.
  \<open>Rep True\<close> is the greedy star, \<open>Rep False\<close> the lazy one; as in ECMAScript an iteration
  that consumes nothing is not repeated.
\<close>

datatype re =
    Cls "jschar \<Rightarrow> bool"
  | Eps
  | Seq re re
  | Alt re re
  | Rep bool re
  | Cap nat re
  | Bol
  | Eol

type_synonym mstate = "nat \<times> jsstring \<times> (nat \<rightharpoonup> jsstring)"

function rep :: "bool \<Rightarrow> (mstate \<Rightarrow> mstate list) \<Rightarrow> mstate \<Rightarrow> mstate list" where
  "rep g f st =
     (let more = concat (map (rep g f)
                   (filter (\<lambda>st'. length (fst (snd st')) < length (fst (snd st))) (f st)))
      in if g then more @ [st] else st # more)"
  by pat_completeness auto
termination
  by (relation "measure (\<lambda>(g, f, st). length (fst (snd st)))") auto

declare rep.simps [simp del]

fun ms :: "re \<Rightarrow> mstate \<Rightarrow> mstate list" where
  "ms (Cls p) (i, s, c) = (case s of [] \<Rightarrow> [] | x # xs \<Rightarrow> if p x then [(Suc i, xs, c)] else [])"
| "ms Eps st = [st]"
| "ms (Seq a b) st = concat (map (ms b) (ms a st))"
| "ms (Alt a b) st = ms a st @ ms b st"
| "ms (Rep g r) st = rep g (ms r) st"
| "ms (Cap n r) (i, s, c) = map (\<lambda>(j, s', c'). (j, s', c'(n \<mapsto> take (j - i) s))) (ms r (i, s, c))"
| "ms Bol (i, s, c) = (if i = 0 then [(i, s, c)] else [])"
| "ms Eol (i, s, c) = (if s = [] then [(i, s, c)] else [])"

text \<open>Derived forms: a literal, \<open>r+\<close>, \<open>r+?\<close>, \<open>r?\<close>, \<open>r{n}\<close>.\<close>

definition chr :: "char \<Rightarrow> re" where
  "chr c = Cls (\<lambda>x. x = of_char c)"

fun lit :: "string \<Rightarrow> re" where
  "lit [] = Eps"
| "lit (c # cs) = Seq (chr c) (lit cs)"

definition rplus :: "re \<Rightarrow> re" where
  "rplus r = Seq r (Rep True r)"

definition rplusLazy :: "re \<Rightarrow> re" where
  "rplusLazy r = Seq r (Rep False r)"

definition ropt :: "re \<Rightarrow> re" where
  "ropt r = Alt r Eps"

fun rtimes :: "nat \<Rightarrow> re \<Rightarrow> re" where
  "rtimes 0 r = Eps"
| "rtimes (Suc n) r = Seq r (rtimes n r)"

fun seqs :: "re list \<Rightarrow> re" where
  "seqs [] = Eps"
| "seqs (r # rs) = Seq r (seqs rs)"

text \<open>
  \<open>s.match(r)\<close> without the \<open>g\<close> flag: the first start position with a match wins.  The
  result is the start, the end and the captures.
\<close>

fun matchFrom :: "re \<Rightarrow> nat \<Rightarrow> jsstring \<Rightarrow> (nat \<times> nat \<times> (nat \<rightharpoonup> jsstring)) option" where
  "matchFrom r i s =
     (case ms r (i, s, Map.empty) of
        (j, _, c) # _ \<Rightarrow> Some (i, j, c)
      | [] \<Rightarrow> (case s of [] \<Rightarrow> None | _ # xs \<Rightarrow> matchFrom r (Suc i) xs))"

declare matchFrom.simps [simp del]

definition reMatch :: "re \<Rightarrow> jsstring \<Rightarrow> (nat \<times> nat \<times> (nat \<rightharpoonup> jsstring)) option" where
  "reMatch r s = matchFrom r 0 s"

section \<open>Numbers\<close>

text \<open>
  A number of JavaScript is a double.  A finite double is represented by its exact
  rational value, and \<open>binary64 x\<close> is the double nearest to the rational \<open>x\<close> (round to
  nearest, ties to even; the exponent range is not modelled, the values here are far
  inside it).  The token counts and the cost are such numbers: sums of token counts are
  rounded as every sum of doubles is, and are exact up to \<open>2^53\<close>.
\<close>

definition pow2 :: "int \<Rightarrow> rat" where
  "pow2 k = (if 0 \<le> k then 2 ^ nat k else 1 / 2 ^ nat (- k))"

text \<open>
  The exponent \<open>\<lfloor>log\<^sub>2 x\<rfloor>\<close> of a positive rational, from the bit length of \<open>\<lfloor>x\<rfloor>\<close> when
  \<open>1 \<le> x\<close> and of \<open>\<lceil>1 / x\<rceil> - 1\<close> otherwise.
\<close>

definition ilog2 :: "rat \<Rightarrow> int" where
  "ilog2 x =
     (if 1 \<le> x then int (floorlog 2 (nat \<lfloor>x\<rfloor>)) - 1
      else - int (floorlog 2 (nat (\<lceil>1 / x\<rceil> - 1))))"

definition roundHalfEven :: "rat \<Rightarrow> int" where
  "roundHalfEven m =
     (let f = \<lfloor>m\<rfloor>; r = m - of_int f
      in if r < 1 / 2 then f else if 1 / 2 < r then f + 1 else if even f then f else f + 1)"

definition binary64 :: "rat \<Rightarrow> rat" where
  "binary64 x =
     (if x = 0 then 0
      else (let u = pow2 (ilog2 \<bar>x\<bar> - 52) in of_int (roundHalfEven (x / u)) * u))"

text \<open>\<open>a + b\<close> on two numbers: the double nearest to the sum.\<close>

definition numberAdd :: "rat \<Rightarrow> rat \<Rightarrow> rat" where
  "numberAdd a b = binary64 (a + b)"

text \<open>
  \<open>x.toFixed(4)\<close> prints the integer \<open>n\<close> of ten-thousandths nearest to \<open>x\<close>, the larger one
  on a tie, with the sign in front; \<open>toFixed4\<close> is that signed \<open>n\<close>, and \<open>Number\<close> of the
  printed string is the double nearest to \<open>n / 10000\<close>.
\<close>

definition toFixed4 :: "rat \<Rightarrow> int" where
  "toFixed4 x = (if x < 0 then - \<lfloor>(- x) * 10000 + 1 / 2\<rfloor> else \<lfloor>x * 10000 + 1 / 2\<rfloor>)"

text \<open>\<open>Number((tokens * 0.0000263).toFixed(4))\<close>\<close>

definition costOf :: "rat \<Rightarrow> rat" where
  "costOf tokens =
     binary64 (of_int (toFixed4 (binary64 (tokens * binary64 (263 / 10000000)))) / 10000)"

section \<open>Agent Reconciler\<close>

text \<open>
  The payloads of the CLI at their declared types \<open>OpenClawAgent\<close> and \<open>OpenClawSession\<close>:
  every field is optional, and a token count is a number (a finite double).
\<close>

record OpenClawAgent =
  agent_id :: "jsstring option"
  agent_identityName :: "jsstring option"
  agent_model :: "jsstring option"

record OpenClawSession =
  session_key :: "jsstring option"
  session_totalTokens :: "rat option"
  session_outputTokens :: "rat option"
  session_model :: "jsstring option"

text \<open>An element of \<open>DashboardData["agents"]\<close>; a task is a title and a source.\<close>

record AgentRecord =
  name :: jsstring
  state :: jsstring
  sessions :: nat
  tokens :: rat
  cost :: rat
  model :: jsstring
  tasks :: "(jsstring \<times> jsstring) list"

definition defaultModel :: jsstring where
  "defaultModel = js ''anthropic/claude-haiku-4-5''"

text \<open>
  \<open>typeof session.totalTokens === "number" ? session.totalTokens : session.outputTokens ?? 0\<close>;
  at the declared types the value is a number, so the coercion \<open>Number(value) || 0\<close> that
  follows is never taken.
\<close>

definition tokenValue :: "OpenClawSession \<Rightarrow> rat" where
  "tokenValue session =
     (case session_totalTokens session of
        Some n \<Rightarrow> n
      | None \<Rightarrow> (case session_outputTokens session of Some m \<Rightarrow> m | None \<Rightarrow> 0))"

definition agentPrefix :: "OpenClawAgent \<Rightarrow> jsstring" where
  "agentPrefix agent = js ''agent:'' @ orElse (agent_id agent) [] @ js '':''"

text \<open>\<open>typeof s.key === "string" && s.key.startsWith(prefix)\<close>\<close>

definition ownedBy :: "jsstring \<Rightarrow> OpenClawSession \<Rightarrow> bool" where
  "ownedBy prefix s = (case session_key s of None \<Rightarrow> False | Some k \<Rightarrow> startsWith k prefix)"

text \<open>
  The body of \<open>agentsArray.map\<close> in \<open>fetchAgentData\<close>.  (\<open>processAgents\<close> of the generator
  script has the same body, except that it writes the prefix of an agent without an id as
  \<open>agent:undefined:\<close>.)
\<close>

definition primaryRecord :: "OpenClawSession list \<Rightarrow> OpenClawAgent \<Rightarrow> AgentRecord" where
  "primaryRecord sessionList agent =
     (let agentSessions = filter (ownedBy (agentPrefix agent)) sessionList;
          total = foldl (\<lambda>total session. numberAdd total (tokenValue session)) 0 agentSessions
      in \<lparr> name = orElse (agent_identityName agent) (orElse (agent_id agent) (js ''Unknown'')),
           state = (if length agentSessions > 0 then js ''Active'' else js ''Idle''),
           sessions = length agentSessions,
           tokens = total,
           cost = costOf total,
           model = orElse (agent_model agent) defaultModel,
           tasks = [] \<rparr>)"

text \<open>\<open>/^agent:main:subagent:([a-f0-9-]+)/\<close>\<close>

definition isHexOrHyphen :: "jschar \<Rightarrow> bool" where
  "isHexOrHyphen c \<longleftrightarrow> (97 \<le> c \<and> c \<le> 102) \<or> (48 \<le> c \<and> c \<le> 57) \<or> c = 45"

definition subagentRe :: re where
  "subagentRe = seqs [Bol, lit ''agent:main:subagent:'', Cap 1 (rplus (Cls isHexOrHyphen))]"

definition subagentMatch :: "jsstring \<Rightarrow> jsstring option" where
  "subagentMatch key = (case reMatch subagentRe key of None \<Rightarrow> None | Some (i, j, c) \<Rightarrow> c 1)"

text \<open>
  The \<open>Map\<close> from sub-agent id to its usage: an association list in insertion order
  (\<open>AList.update\<close> keeps the place of a key that is present and appends a new one, as
  \<open>Map.prototype.set\<close> does).
\<close>

record SubagentData =
  sd_model :: jsstring
  sd_sessions :: nat
  sd_tokens :: rat

definition discoverStep ::
  "(jsstring \<times> SubagentData) list \<Rightarrow> OpenClawSession \<Rightarrow> (jsstring \<times> SubagentData) list" where
  "discoverStep subagentSessions session =
     (case subagentMatch (orElse (session_key session) []) of
        None \<Rightarrow> subagentSessions
      | Some subagentId \<Rightarrow>
          (case map_of subagentSessions subagentId of
             None \<Rightarrow>
               AList.update subagentId
                 \<lparr> sd_model = orElse (session_model session) defaultModel,
                   sd_sessions = 1,
                   sd_tokens = tokenValue session \<rparr> subagentSessions
           | Some existing \<Rightarrow>
               AList.update subagentId
                 (existing \<lparr> sd_sessions := sd_sessions existing + 1,
                             sd_tokens := numberAdd (sd_tokens existing) (tokenValue session) \<rparr>)
                 subagentSessions))"

definition discoverSubagents :: "OpenClawSession list \<Rightarrow> (jsstring \<times> SubagentData) list" where
  "discoverSubagents sessionList = foldl discoverStep [] sessionList"

text \<open>
  \<open>folderName.split('-').map(word => word.charAt(0).toUpperCase() + word.slice(1)).join(' ')\<close>
\<close>

definition capitalize :: "(jschar \<Rightarrow> jsstring) \<Rightarrow> jsstring \<Rightarrow> jsstring" where
  "capitalize uc word = (case word of [] \<Rightarrow> [] | c # cs \<Rightarrow> toUpperCase1 uc c @ cs)"

definition displayName :: "(jschar \<Rightarrow> jsstring) \<Rightarrow> jsstring \<Rightarrow> jsstring" where
  "displayName uc folderName = join (js '' '') (map (capitalize uc) (split 45 folderName))"

text \<open>The name given to the discovered group at position \<open>agentIndex\<close>.\<close>

definition subagentName :: "(jschar \<Rightarrow> jsstring) \<Rightarrow> jsstring list \<Rightarrow> nat \<Rightarrow> jsstring" where
  "subagentName uc definedSubAgents agentIndex =
     (if agentIndex < length definedSubAgents then displayName uc (definedSubAgents ! agentIndex)
      else js ''Sub-agent '' @ showNat (agentIndex + 1))"

definition activeRecord :: "jsstring \<Rightarrow> SubagentData \<Rightarrow> AgentRecord" where
  "activeRecord agentName d =
     \<lparr> name = agentName, state = js ''Active'', sessions = sd_sessions d, tokens = sd_tokens d,
       cost = costOf (sd_tokens d), model = sd_model d, tasks = [] \<rparr>"

definition idleRecord :: "jsstring \<Rightarrow> AgentRecord" where
  "idleRecord agentName =
     \<lparr> name = agentName, state = js ''Idle'', sessions = 0, tokens = 0, cost = 0,
       model = defaultModel, tasks = [] \<rparr>"

text \<open>
  The first loop over the discovered groups, with its counter \<open>agentIndex\<close>, and the second
  loop \<open>for (let i = agentIndex; i < definedSubAgents.length; i++)\<close>.
\<close>

fun nameSubagents ::
  "(jschar \<Rightarrow> jsstring) \<Rightarrow> jsstring list \<Rightarrow> nat \<Rightarrow> (jsstring \<times> SubagentData) list \<Rightarrow> AgentRecord list" where
  "nameSubagents uc definedSubAgents agentIndex [] = []"
| "nameSubagents uc definedSubAgents agentIndex ((subagentId, d) # rest) =
     activeRecord (subagentName uc definedSubAgents agentIndex) d
       # nameSubagents uc definedSubAgents (agentIndex + 1) rest"

definition idleSubagents :: "(jschar \<Rightarrow> jsstring) \<Rightarrow> jsstring list \<Rightarrow> nat \<Rightarrow> AgentRecord list" where
  "idleSubagents uc definedSubAgents agentIndex =
     map (\<lambda>i. idleRecord (displayName uc (definedSubAgents ! i))) [agentIndex ..< length definedSubAgents]"

definition subagentRecords ::
  "(jschar \<Rightarrow> jsstring) \<Rightarrow> jsstring list \<Rightarrow> OpenClawSession list \<Rightarrow> AgentRecord list" where
  "subagentRecords uc definedSubAgents sessionList =
     (let subagentSessions = discoverSubagents sessionList
      in nameSubagents uc definedSubAgents 0 subagentSessions
           @ idleSubagents uc definedSubAgents (length subagentSessions))"

text \<open>
  What \<open>runOpenClawJson\<close> hands on: the parsed text starts with a bracket or a brace, so
  the value is an array or an object; of an object only the one field the caller reads
  matters (\<open>None\<close> when it is absent; the payloads are read at their declared types).
\<close>

datatype 'a payload = TopArray "'a list" | Response "'a list option"

definition extractAgents :: "OpenClawAgent payload \<Rightarrow> OpenClawAgent list" where
  "extractAgents p = (case p of TopArray xs \<Rightarrow> xs | Response None \<Rightarrow> [] | Response (Some xs) \<Rightarrow> xs)"

definition extractSessions :: "OpenClawSession payload option \<Rightarrow> OpenClawSession list" where
  "extractSessions p =
     (case p of None \<Rightarrow> [] | Some (TopArray xs) \<Rightarrow> [] | Some (Response None) \<Rightarrow> []
      | Some (Response (Some xs)) \<Rightarrow> xs)"

text \<open>
  \<open>fetchAgentData\<close> after its two calls of \<open>runOpenClawJson\<close> and the call of
  \<open>getDefinedSubAgentsList\<close>, whose results are the arguments.
\<close>

definition reconcileAgents ::
  "(jschar \<Rightarrow> jsstring) \<Rightarrow> OpenClawAgent payload option \<Rightarrow> OpenClawSession payload option \<Rightarrow>
     jsstring list \<Rightarrow> AgentRecord list option" where
  "reconcileAgents uc agentsJson sessionsJson definedSubAgents =
     (case agentsJson of
        None \<Rightarrow> None
      | Some p \<Rightarrow>
          (let agentsArray = extractAgents p in
           if agentsArray = [] then None
           else (let sessionList = extractSessions sessionsJson;
                     agents = map (primaryRecord sessionList) agentsArray;
                     subagents = subagentRecords uc definedSubAgents sessionList
                 in Some (agents @ subagents))))"

text \<open>
  The total that \<open>fetchAgentData\<close> logs:
  \<open>allAgents.reduce((sum, agent) => sum + agent.tokens, 0)\<close>.
\<close>

definition totalTokens :: "AgentRecord list \<Rightarrow> rat" where
  "totalTokens allAgents = foldl (\<lambda>sum agent. numberAdd sum (tokens agent)) 0 allAgents"

text \<open>
  The two matching rules, in the words of the specification: a session matches the
  secondary pattern when its key matches \<open>agent:main:subagent:<uuid>\<close>, and it matches the
  primary rule of an agent when its key starts with \<open>agent:<id>:\<close>.  \<open>matchCount\<close> counts
  the rules a session matches, \<open>matchedTokens\<close> sums each matched session once.
\<close>

definition isSubagentSession :: "OpenClawSession \<Rightarrow> bool" where
  "isSubagentSession s \<longleftrightarrow> subagentMatch (orElse (session_key s) []) \<noteq> None"

definition matchCount :: "OpenClawAgent list \<Rightarrow> OpenClawSession \<Rightarrow> nat" where
  "matchCount agentsArray s =
     length (filter (\<lambda>agent. ownedBy (agentPrefix agent) s) agentsArray)
       + (if isSubagentSession s then 1 else 0)"

definition matchedTokens :: "OpenClawAgent list \<Rightarrow> OpenClawSession list \<Rightarrow> rat" where
  "matchedTokens agentsArray sessionList =
     sum_list (map tokenValue (filter (\<lambda>s. 0 < matchCount agentsArray s) sessionList))"

text \<open>The usage a record shows, and the usage of a discovered group.\<close>

definition usage :: "AgentRecord \<Rightarrow> nat \<times> rat" where
  "usage r = (sessions r, tokens r)"

definition groupUsage :: "jsstring \<times> SubagentData \<Rightarrow> nat \<times> rat" where
  "groupUsage g = (sd_sessions (snd g), sd_tokens (snd g))"

text \<open>The inputs of the scenarios.\<close>

definition agentClawd :: OpenClawAgent where
  "agentClawd = \<lparr> agent_id = Some (js ''a1''), agent_identityName = Some (js ''Clawd''),
     agent_model = None \<rparr>"

definition sessionClawd :: OpenClawSession where
  "sessionClawd = \<lparr> session_key = Some (js ''agent:a1:s1''), session_totalTokens = Some 1000,
     session_outputTokens = None, session_model = None \<rparr>"

definition agentMain :: OpenClawAgent where
  "agentMain = \<lparr> agent_id = Some (js ''main''), agent_identityName = None, agent_model = None \<rparr>"

definition sessionSub :: OpenClawSession where
  "sessionSub = \<lparr> session_key = Some (js ''agent:main:subagent:ab''), session_totalTokens = Some 5,
     session_outputTokens = None, session_model = None \<rparr>"

definition sessionSub2 :: OpenClawSession where
  "sessionSub2 = \<lparr> session_key = Some (js ''agent:main:subagent:cd''), session_totalTokens = None,
     session_outputTokens = Some 7, session_model = Some (js ''m'') \<rparr>"

definition sessionStray :: OpenClawSession where
  "sessionStray = \<lparr> session_key = Some (js ''cron:job1''), session_totalTokens = Some 3,
     session_outputTokens = None, session_model = None \<rparr>"

definition recordClawd :: AgentRecord where
  "recordClawd = \<lparr> name = js ''Clawd'', state = js ''Active'', sessions = 1, tokens = 1000,
     cost = binary64 (263 / 10000), model = defaultModel, tasks = [] \<rparr>"

subsection \<open>Evaluation\<close>

lemmas re_eval = reMatch_def matchFrom.simps rep.simps chr_def rplus_def rplusLazy_def ropt_def

lemma js_Nil [simp]: "js [] = []"
  by (simp add: js_def)

lemma js_Cons_neq_Nil [simp]: "js (c # cs) \<noteq> []"
  by (simp add: js_def)

lemma orElse_simps [simp]:
  "orElse None d = d" "orElse (Some []) d = d" "s \<noteq> [] \<Longrightarrow> orElse (Some s) d = s"
  by (simp_all add: orElse_def)

lemma floor_rat_numeral: "\<lfloor>numeral a / numeral b :: rat\<rfloor> = numeral a div numeral b"
  by (metis floor_divide_of_int_eq of_int_numeral)

lemma ceiling_rat_numeral: "\<lceil>numeral a / numeral b :: rat\<rceil> = - (- numeral a div numeral b)"
  unfolding ceiling_def
  by (metis floor_divide_of_int_eq minus_divide_left of_int_minus of_int_numeral)

lemma ilog2_small:
  assumes "x < 1" and "nat (\<lceil>1 / x\<rceil> - 1) = n" and "floorlog 2 n = k"
  shows "ilog2 x = - int k"
  using assms by (simp add: ilog2_def)

lemma binary64_eval:
  assumes "x \<noteq> 0" and "ilog2 \<bar>x\<bar> = e"
    and "of_int (roundHalfEven (x / pow2 (e - 52))) * pow2 (e - 52) = y"
  shows "binary64 x = y"
  using assms by (simp add: binary64_def)

text \<open>
  The exponent is the right one and the rounding is to a nearest double: the result is
  within half a unit in the last place of the argument.
\<close>

lemma pow2_nonneg: "pow2 (int k) = 2 ^ k"
  by (simp add: pow2_def)

lemma pow2_neg: "pow2 (- int k) = 1 / 2 ^ k"
  by (cases k) (simp_all add: pow2_def nat_add_distrib)

lemma ilog2_bounds:
  assumes "0 < x"
  shows "pow2 (ilog2 x) \<le> x \<and> x < pow2 (ilog2 x + 1)"
proof (cases "1 \<le> x")
  case True
  define n where "n = nat \<lfloor>x\<rfloor>"
  define k where "k = floorlog 2 n"
  have n: "0 < n" "rat_of_nat n \<le> x" "x < rat_of_nat n + 1"
    using True by (simp_all add: n_def le_floor_iff floor_less_iff) linarith+
  from floorlog_bounds[of n 2] n(1) have b: "2 ^ (k - 1) \<le> n" "n < 2 ^ k"
    by (simp_all add: k_def)
  have k: "0 < k" using n(1) by (simp add: k_def floorlog_def)
  have i: "ilog2 x = int (k - 1)" using True k by (simp add: ilog2_def n_def k_def)
  have "rat_of_nat (2 ^ (k - 1)) \<le> rat_of_nat n" using b(1) by (simp only: of_nat_le_iff)
  then have "rat_of_nat (2 ^ (k - 1)) \<le> x" using n(2) by (rule order_trans)
  then have lo: "(2::rat) ^ (k - 1) \<le> x" by simp
  have "rat_of_nat (n + 1) \<le> rat_of_nat (2 ^ k)" using b(2) by (simp only: of_nat_le_iff)
  moreover have "x < rat_of_nat (n + 1)" using n(3) by simp
  ultimately have "x < rat_of_nat (2 ^ k)" by (rule less_le_trans[rotated])
  then have hi: "x < (2::rat) ^ k" by simp
  have p1: "pow2 (ilog2 x) = 2 ^ (k - 1)"
    unfolding i by (rule pow2_nonneg)
  have "int (k - 1) + 1 = int k" using k by simp
  then have p2: "pow2 (ilog2 x + 1) = 2 ^ k"
    using pow2_nonneg[of k] by (simp only: i)
  show ?thesis using lo hi by (simp only: p1 p2)
next
  case False
  define y where "y = 1 / x"
  define m where "m = nat (\<lceil>y\<rceil> - 1)"
  define k where "k = floorlog 2 m"
  have y: "1 < y" using False assms by (simp add: y_def)
  then have c: "2 \<le> \<lceil>y\<rceil>" by (simp add: le_ceiling_iff) 
  then have m: "0 < m" "rat_of_nat m < y" "y \<le> rat_of_nat m + 1"
    by (simp_all add: m_def less_ceiling_iff ceiling_le_iff) linarith+
  from floorlog_bounds[of m 2] m(1) have b: "2 ^ (k - 1) \<le> m" "m < 2 ^ k"
    by (simp_all add: k_def)
  have k: "0 < k" using m(1) by (simp add: k_def floorlog_def)
  have i: "ilog2 x = - int k" using False by (simp add: ilog2_def m_def k_def y_def)
  have "rat_of_nat (m + 1) \<le> rat_of_nat (2 ^ k)" using b(2) by (simp only: of_nat_le_iff)
  moreover have "y \<le> rat_of_nat (m + 1)" using m(3) by simp
  ultimately have "y \<le> rat_of_nat (2 ^ k)" by (rule order_trans[rotated])
  then have "y \<le> 2 ^ k" by simp
  then have lo: "1 / 2 ^ k \<le> x"
    using assms by (simp add: y_def field_simps)
  have "rat_of_nat (2 ^ (k - 1)) \<le> rat_of_nat m" using b(1) by (simp only: of_nat_le_iff)
  then have "rat_of_nat (2 ^ (k - 1)) < y" using m(2) by (rule le_less_trans)
  then have "2 ^ (k - 1) < y" by simp
  then have hi: "x < 1 / 2 ^ (k - 1)"
    using assms by (simp add: y_def field_simps)
  have p1: "pow2 (ilog2 x) = 1 / 2 ^ k"
    unfolding i by (rule pow2_neg)
  have "- int k + 1 = - int (k - 1)" using k by simp
  then have p2: "pow2 (ilog2 x + 1) = 1 / 2 ^ (k - 1)"
    using pow2_neg[of "k - 1"] by (simp only: i)
  show ?thesis using lo hi by (simp only: p1 p2)
qed

lemma pow2_pos: "0 < pow2 k"
  by (simp add: pow2_def)

lemma roundHalfEven_error: "\<bar>of_int (roundHalfEven q) - q\<bar> \<le> 1 / 2"
proof -
  define f where "f = \<lfloor>q\<rfloor>"
  have f: "of_int f \<le> q" "q < of_int f + 1" unfolding f_def by linarith+
  have "roundHalfEven q = f \<and> q - of_int f \<le> 1 / 2
      \<or> roundHalfEven q = f + 1 \<and> 1 / 2 \<le> q - of_int f"
    unfolding roundHalfEven_def f_def[symmetric] Let_def by auto
  then show ?thesis using f by (auto simp: abs_if)
qed

lemma binary64_nearest:
  assumes "x \<noteq> 0"
  shows "\<bar>binary64 x - x\<bar> \<le> pow2 (ilog2 \<bar>x\<bar> - 52) / 2"
proof -
  define u where "u = pow2 (ilog2 \<bar>x\<bar> - 52)"
  have u: "0 < u" by (simp add: u_def pow2_pos)
  have "binary64 x - x = (of_int (roundHalfEven (x / u)) - x / u) * u"
    using assms u by (simp add: binary64_def u_def[symmetric] Let_def algebra_simps)
  then have "\<bar>binary64 x - x\<bar> = \<bar>of_int (roundHalfEven (x / u)) - x / u\<bar> * u"
    using u by (simp add: abs_mult)
  also have "\<dots> \<le> (1 / 2) * u"
    using roundHalfEven_error[of "x / u"] u by (intro mult_right_mono) simp_all
  finally show ?thesis by (simp add: u_def)
qed

text \<open>
  Every integer up to \<open>2^53\<close> in absolute value is a double, so a sum of two natural
  numbers is exact as long as it is at most \<open>2^53\<close>; beyond that the sum is rounded.
\<close>

lemma roundHalfEven_of_int: "roundHalfEven (of_int m) = m"
  by (simp add: roundHalfEven_def)

lemma binary64_grid:
  assumes "x = of_int m * pow2 (ilog2 \<bar>x\<bar> - 52)"
  shows "binary64 x = x"
proof (cases "x = 0")
  case True
  then show ?thesis by (simp add: binary64_def)
next
  case False
  define u where "u = pow2 (ilog2 \<bar>x\<bar> - 52)"
  have u: "0 < u" by (simp add: u_def pow2_pos)
  have "x / u = of_int m" using assms u by (simp add: u_def[symmetric])
  then have "of_int (roundHalfEven (x / u)) * u = x"
    using assms by (simp add: roundHalfEven_of_int u_def[symmetric])
  then show ?thesis using False by (simp add: binary64_def u_def[symmetric] Let_def)
qed

lemma pow2_mono: "a \<le> b \<Longrightarrow> pow2 a \<le> pow2 b"
proof -
  assume "a \<le> b"
  have p: "pow2 k = 2 powi k" for k
    by (simp add: pow2_def power_int_def field_simps)
  show ?thesis unfolding p using \<open>a \<le> b\<close> by (intro power_int_increasing) simp_all
qed

lemma binary64_of_int:
  assumes "\<bar>n\<bar> \<le> 2 ^ 53"
  shows "binary64 (of_int n) = of_int n"
proof (cases "n = 0")
  case True
  then show ?thesis by (simp add: binary64_def)
next
  case False
  define x :: rat where "x = of_int n"
  define e where "e = ilog2 \<bar>x\<bar>"
  have pos: "0 < \<bar>x\<bar>" using False by (simp add: x_def)
  have x1: "1 \<le> \<bar>x\<bar>"
  proof -
    have "1 \<le> \<bar>n\<bar>" using False by simp
    then have "(of_int 1 :: rat) \<le> of_int \<bar>n\<bar>" by (simp only: of_int_le_iff)
    then show ?thesis by (simp add: x_def)
  qed
  have xb: "\<bar>x\<bar> \<le> 2 ^ 53"
  proof -
    have "(of_int \<bar>n\<bar> :: rat) \<le> of_int (2 ^ 53)" using assms by (simp only: of_int_le_iff)
    then show ?thesis by (simp add: x_def)
  qed
  from ilog2_bounds[OF pos] have b: "pow2 e \<le> \<bar>x\<bar>" "\<bar>x\<bar> < pow2 (e + 1)"
    by (simp_all add: e_def)
  have e0: "0 \<le> e"
  proof (rule ccontr)
    assume "\<not> 0 \<le> e"
    then have "e + 1 \<le> 0" by simp
    then have "pow2 (e + 1) \<le> pow2 0" by (rule pow2_mono)
    then show False using b(2) x1 by (simp add: pow2_def)
  qed
  have e53: "e \<le> 53"
  proof (rule ccontr)
    assume "\<not> e \<le> 53"
    then have "54 \<le> e" by simp
    then have "pow2 54 \<le> pow2 e" by (rule pow2_mono)
    then show False using b(1) xb by (simp add: pow2_def)
  qed
  show ?thesis
  proof (cases "e \<le> 52")
    case True
    define k where "k = nat (52 - e)"
    have u: "pow2 (e - 52) = 1 / 2 ^ k"
      using True pow2_neg[of k] by (simp add: k_def)
    have "x = of_int (n * 2 ^ k) * pow2 (e - 52)"
      by (simp add: u x_def)
    then show ?thesis
      unfolding x_def[symmetric] by (intro binary64_grid[of x "n * 2 ^ k"]) (simp add: e_def)
  next
    case False
    with e53 have e: "e = 53" by simp
    have "pow2 53 \<le> \<bar>x\<bar>" using b(1) e by simp
    with xb have ax: "\<bar>x\<bar> = 2 ^ 53" by (simp add: pow2_def)
    then have "\<bar>of_int n :: rat\<bar> = of_int (2 ^ 53)" by (simp add: x_def)
    then have "\<bar>n\<bar> = 2 ^ 53" by (simp only: of_int_abs[symmetric] of_int_eq_iff)
    then have "n = 2 ^ 53 \<or> n = - (2 ^ 53)" by (auto simp: abs_if split: if_splits)
    then have ev: "n = 2 * (n div 2)" by (elim disjE) simp_all
    have u: "pow2 (e - 52) = 2" by (simp add: e pow2_def)
    have "x = of_int (n div 2) * pow2 (e - 52)"
      unfolding u x_def by (subst ev) simp
    then show ?thesis
      unfolding x_def[symmetric] by (intro binary64_grid[of x "n div 2"]) (simp add: e_def)
  qed
qed

lemma binary64_numeral: "numeral k \<le> (2::int) ^ 53 \<Longrightarrow> binary64 (numeral k) = numeral k"
  using binary64_of_int[of "numeral k"] by simp

lemma numberAdd_Nats:
  assumes "a \<in> \<nat>" and "b \<in> \<nat>" and "a + b \<le> 2 ^ 53"
  shows "numberAdd a b = a + b"
proof -
  from assms(1,2) obtain m n where mn: "a = of_nat m" "b = of_nat n"
    by (auto simp: Nats_def)
  have "(of_nat (m + n) :: rat) \<le> of_nat (2 ^ 53)" using assms(3) by (simp add: mn)
  then have "m + n \<le> 2 ^ 53" by (simp only: of_nat_le_iff)
  then have "\<bar>int (m + n)\<bar> \<le> 2 ^ 53" by simp
  from binary64_of_int[OF this] show ?thesis by (simp add: numberAdd_def mn)
qed

lemma numberAdd_small:
  "numberAdd 0 1000 = 1000" "numberAdd 0 5 = 5" "numberAdd 5 5 = 10"
  by (simp_all add: numberAdd_def binary64_numeral)

lemma ilog2_beyond: "ilog2 \<bar>9007199254740993\<bar> = 53"
proof -
  have "floorlog 2 9007199254740993 = 54" by (simp add: compute_floorlog)
  then show ?thesis by (simp add: ilog2_def)
qed

lemma numberAdd_beyond: "numberAdd 9007199254740991 2 = 9007199254740992"
proof -
  have "binary64 9007199254740993 = 9007199254740992"
    by (rule binary64_eval[OF _ ilog2_beyond])
      (simp_all add: pow2_def roundHalfEven_def Let_def floor_rat_numeral)
  then show ?thesis by (simp add: numberAdd_def)
qed

text \<open>The rate \<open>0.0000263\<close> as a double, and the cost of 1000 tokens.\<close>

lemma ilog2_rate: "ilog2 \<bar>263 / 10000000\<bar> = - int 16"
  by (rule ilog2_small[where n = 38022]) (simp_all add: ceiling_rat_numeral compute_floorlog)

lemma binary64_rate: "binary64 (263 / 10000000) = 7762389906216979 / 2 ^ 68"
  by (rule binary64_eval[OF _ ilog2_rate])
    (simp_all add: pow2_def roundHalfEven_def Let_def floor_rat_numeral)

lemma ilog2_product: "ilog2 \<bar>1000 * (7762389906216979 / 2 ^ 68)\<bar> = - int 6"
  by (rule ilog2_small[where n = 38]) (simp_all add: ceiling_rat_numeral compute_floorlog)

lemma binary64_product:
  "binary64 (1000 * (7762389906216979 / 2 ^ 68)) = 7580458892790019 / 2 ^ 58"
  by (rule binary64_eval[OF _ ilog2_product])
    (simp_all add: pow2_def roundHalfEven_def Let_def floor_rat_numeral)

lemma toFixed4_product: "toFixed4 (7580458892790019 / 2 ^ 58) = 263"
  by (simp add: toFixed4_def floor_rat_numeral)

lemma costOf_1000: "costOf 1000 = binary64 (263 / 10000)"
  by (simp only: costOf_def binary64_rate of_int_numeral binary64_product toFixed4_product)

lemma costOf_0: "costOf 0 = 0"
proof -
  have "\<lfloor>(1::rat) / 2\<rfloor> = 0" by (simp add: floor_eq_iff)
  then show ?thesis by (simp add: costOf_def binary64_def toFixed4_def)
qed

lemma subagentMatch_sessionSub: "subagentMatch (js ''agent:main:subagent:ab'') = Some (js ''ab'')"
  by (simp add: subagentMatch_def subagentRe_def re_eval js_def isHexOrHyphen_def)

lemma ownedBy_sessionSub: "ownedBy (agentPrefix agentMain) sessionSub"
  by (simp add: ownedBy_def agentPrefix_def agentMain_def sessionSub_def startsWith_def js_def)

lemma discover_sessionSub:
  "discoverSubagents [sessionSub]
     = [(js ''ab'', \<lparr> sd_model = defaultModel, sd_sessions = 1, sd_tokens = 5 \<rparr>)]"
  by (simp add: discoverSubagents_def discoverStep_def sessionSub_def subagentMatch_sessionSub
      tokenValue_def)

lemma subagentMatch_sessionSub2: "subagentMatch (js ''agent:main:subagent:cd'') = Some (js ''cd'')"
  by (simp add: subagentMatch_def subagentRe_def re_eval js_def isHexOrHyphen_def)

lemma subagentMatch_sessionClawd: "subagentMatch (js ''agent:a1:s1'') = None"
  by (simp add: subagentMatch_def subagentRe_def re_eval js_def isHexOrHyphen_def)

lemma ownedBy_sessionClawd: "ownedBy (agentPrefix agentClawd) sessionClawd"
  by (simp add: ownedBy_def agentPrefix_def agentClawd_def sessionClawd_def startsWith_def js_def)

lemma discover_sessionClawd: "discoverSubagents [sessionClawd] = []"
  by (simp add: discoverSubagents_def discoverStep_def sessionClawd_def subagentMatch_sessionClawd)

lemma displayName_code_reviewer: "displayName uc (js ''code-reviewer'') = js ''Code Reviewer''"
  by (simp add: displayName_def js_def capitalize_def toUpperCase1_def)

subsection \<open>Sums of tokens\<close>

text \<open>
  A fold of \<open>numberAdd\<close> over natural numbers is their exact sum as long as the sum is at
  most \<open>2^53\<close>: every partial sum is a natural number within the bound.
\<close>

lemma sum_list_Nats: "\<forall>x \<in> set xs. f x \<in> \<nat> \<Longrightarrow> sum_list (map f xs) \<in> (\<nat> :: rat set)"
  by (induction xs) (simp_all add: Nats_add)

lemma Nats_nonneg: "x \<in> \<nat> \<Longrightarrow> 0 \<le> (x :: rat)"
  by (auto simp: Nats_def)

lemma sum_list_nonneg_Nats: "\<forall>x \<in> set xs. f x \<in> \<nat> \<Longrightarrow> 0 \<le> (sum_list (map f xs) :: rat)"
  using sum_list_Nats[of xs f] by (simp add: Nats_nonneg)

lemma foldl_numberAdd:
  assumes "a \<in> \<nat>" and "\<forall>x \<in> set xs. f x \<in> \<nat>" and "a + sum_list (map f xs) \<le> 2 ^ 53"
  shows "foldl (\<lambda>t x. numberAdd t (f x)) a xs = a + sum_list (map f xs)"
  using assms
proof (induction xs arbitrary: a)
  case Nil
  then show ?case by simp
next
  case (Cons x xs)
  have r: "0 \<le> sum_list (map f xs)" using Cons.prems(2) by (simp add: sum_list_nonneg_Nats)
  have fx: "f x \<in> \<nat>" using Cons.prems(2) by simp
  have "a + f x \<le> 2 ^ 53" using Cons.prems(3) r by simp
  then have e: "numberAdd a (f x) = a + f x"
    using Cons.prems(1) fx by (intro numberAdd_Nats)
  have "foldl (\<lambda>t x. numberAdd t (f x)) (a + f x) xs = (a + f x) + sum_list (map f xs)"
    using Cons.prems fx by (intro Cons.IH) (simp_all add: Nats_add add.assoc)
  then show ?case by (simp add: e add.assoc)
qed

lemma sum_filter_if: "sum_list (map f (filter P xs)) = (\<Sum>x\<leftarrow>xs. if P x then f x else (0::rat))"
  by (induction xs) simp_all

text \<open>
  The tokens of a primary record, and of all primary records: a session counts once for
  every agent that owns it.
\<close>

lemma primary_tokens:
  assumes "\<forall>s \<in> set ss. tokenValue s \<in> \<nat>"
    and "(\<Sum>s\<leftarrow>ss. if ownedBy (agentPrefix a) s then tokenValue s else 0) \<le> 2 ^ 53"
  shows "tokens (primaryRecord ss a) = (\<Sum>s\<leftarrow>ss. if ownedBy (agentPrefix a) s then tokenValue s else 0)"
proof -
  let ?own = "filter (ownedBy (agentPrefix a)) ss"
  have "foldl (\<lambda>t s. numberAdd t (tokenValue s)) 0 ?own = 0 + sum_list (map tokenValue ?own)"
    using assms by (intro foldl_numberAdd) (simp_all add: sum_filter_if)
  then show ?thesis by (simp add: primaryRecord_def Let_def sum_filter_if)
qed

definition ownerCount :: "OpenClawAgent list \<Rightarrow> OpenClawSession \<Rightarrow> nat" where
  "ownerCount as s = length (filter (\<lambda>a. ownedBy (agentPrefix a) s) as)"

lemma owned_le_count:
  assumes "\<forall>s \<in> set ss. tokenValue s \<in> \<nat>" and "a \<in> set as"
  shows "(\<Sum>s\<leftarrow>ss. if ownedBy (agentPrefix a) s then tokenValue s else 0)
           \<le> (\<Sum>s\<leftarrow>ss. tokenValue s * of_nat (ownerCount as s))"
proof (rule sum_list_mono)
  fix s assume s: "s \<in> set ss"
  then have n: "0 \<le> tokenValue s" using assms(1) by (simp add: Nats_nonneg)
  show "(if ownedBy (agentPrefix a) s then tokenValue s else 0) \<le> tokenValue s * of_nat (ownerCount as s)"
  proof (cases "ownedBy (agentPrefix a) s")
    case True
    then have "a \<in> set (filter (\<lambda>a. ownedBy (agentPrefix a) s) as)" using assms(2) by simp
    then have "0 < ownerCount as s" unfolding ownerCount_def by (rule length_pos_if_in_set)
    then have "(1::rat) \<le> of_nat (ownerCount as s)" by simp
    then have "tokenValue s * 1 \<le> tokenValue s * of_nat (ownerCount as s)"
      using n by (rule mult_left_mono)
    with True show ?thesis by simp
  next
    case False
    with n show ?thesis by simp
  qed
qed

lemma primary_sum:
  "(\<Sum>a\<leftarrow>as. \<Sum>s\<leftarrow>ss. if ownedBy (agentPrefix a) s then tokenValue s else 0)
     = (\<Sum>s\<leftarrow>ss. tokenValue s * of_nat (ownerCount as s))"
proof (induction as)
  case Nil
  then show ?case by (simp add: ownerCount_def)
next
  case (Cons a as)
  have "(\<Sum>s\<leftarrow>ss. tokenValue s * of_nat (ownerCount (a # as) s))
      = (\<Sum>s\<leftarrow>ss. (if ownedBy (agentPrefix a) s then tokenValue s else 0)
            + tokenValue s * of_nat (ownerCount as s))"
    by (rule arg_cong[where f = sum_list], rule map_cong)
      (simp_all add: ownerCount_def algebra_simps)
  then show ?case
    using Cons.IH by (simp add: sum_list_addf)
qed

lemma primary_total:
  assumes "\<forall>s \<in> set ss. tokenValue s \<in> \<nat>"
    and "(\<Sum>s\<leftarrow>ss. tokenValue s * of_nat (ownerCount as s)) \<le> 2 ^ 53"
  shows "(\<Sum>a\<leftarrow>as. tokens (primaryRecord ss a)) = (\<Sum>s\<leftarrow>ss. tokenValue s * of_nat (ownerCount as s))"
proof -
  have "map (\<lambda>a. tokens (primaryRecord ss a)) as
      = map (\<lambda>a. \<Sum>s\<leftarrow>ss. if ownedBy (agentPrefix a) s then tokenValue s else 0) as"
  proof (rule map_cong[OF refl])
    fix a assume "a \<in> set as"
    from owned_le_count[OF assms(1) this] assms(2)
    have "(\<Sum>s\<leftarrow>ss. if ownedBy (agentPrefix a) s then tokenValue s else 0) \<le> 2 ^ 53"
      by (rule order_trans)
    with assms(1) show "tokens (primaryRecord ss a)
        = (\<Sum>s\<leftarrow>ss. if ownedBy (agentPrefix a) s then tokenValue s else 0)"
      by (rule primary_tokens)
  qed
  then show ?thesis by (simp only: primary_sum)
qed

lemma primary_Nats:
  assumes "\<forall>s \<in> set ss. tokenValue s \<in> \<nat>"
    and "(\<Sum>s\<leftarrow>ss. tokenValue s * of_nat (ownerCount as s)) \<le> 2 ^ 53"
    and "a \<in> set as"
  shows "tokens (primaryRecord ss a) \<in> \<nat>"
proof -
  from owned_le_count[OF assms(1,3)] assms(2)
  have "(\<Sum>s\<leftarrow>ss. if ownedBy (agentPrefix a) s then tokenValue s else 0) \<le> 2 ^ 53"
    by (rule order_trans)
  from primary_tokens[OF assms(1) this] show ?thesis
    using assms(1) by (simp add: sum_list_Nats)
qed

text \<open>The tokens of the discovered groups: every session of the secondary pattern counts once.\<close>

definition groupTokens :: "(jsstring \<times> SubagentData) list \<Rightarrow> rat" where
  "groupTokens m = (\<Sum>p\<leftarrow>m. sd_tokens (snd p))"

definition groupsNats :: "(jsstring \<times> SubagentData) list \<Rightarrow> bool" where
  "groupsNats m \<longleftrightarrow> (\<forall>g \<in> set m. sd_tokens (snd g) \<in> \<nat>)"

lemma groupTokens_update_new:
  "map_of m k = None \<Longrightarrow> groupTokens (AList.update k v m) = groupTokens m + sd_tokens v"
  by (induction m) (auto simp: groupTokens_def)

lemma groupTokens_update_old:
  "map_of m k = Some old \<Longrightarrow>
     groupTokens (AList.update k v m) = groupTokens m - sd_tokens old + sd_tokens v"
  by (induction m) (auto simp: groupTokens_def)

lemma set_update_subset: "set (AList.update k v al) \<subseteq> insert (k, v) (set al)"
  by (induction al) auto

lemma groupsNats_update:
  "groupsNats m \<Longrightarrow> sd_tokens v \<in> \<nat> \<Longrightarrow> groupsNats (AList.update k v m)"
  using set_update_subset[of k v m] by (auto simp: groupsNats_def)

lemma elem_le_sum_list:
  "x \<in> set xs \<Longrightarrow> \<forall>y \<in> set xs. 0 \<le> f y \<Longrightarrow> f x \<le> (\<Sum>y\<leftarrow>xs. f y :: rat)"
proof (induction xs)
  case Nil
  then show ?case by simp
next
  case (Cons y ys)
  have r: "0 \<le> (\<Sum>y\<leftarrow>ys. f y)" using Cons.prems(2) by (intro sum_list_nonneg) auto
  show ?case
  proof (cases "x = y")
    case True
    with r show ?thesis by simp
  next
    case False
    with Cons have "f x \<le> (\<Sum>y\<leftarrow>ys. f y)" by simp
    moreover have "0 \<le> f y" using Cons.prems(2) by simp
    ultimately show ?thesis by simp
  qed
qed

lemma group_le_groupTokens:
  assumes "groupsNats m" and "map_of m k = Some old"
  shows "sd_tokens old \<in> \<nat> \<and> sd_tokens old \<le> groupTokens m"
proof -
  from assms(2) have i: "(k, old) \<in> set m" by (rule map_of_SomeD)
  have n: "\<forall>g \<in> set m. 0 \<le> sd_tokens (snd g)"
    using assms(1) by (simp add: groupsNats_def Nats_nonneg)
  have "sd_tokens (snd (k, old)) \<le> (\<Sum>p\<leftarrow>m. sd_tokens (snd p))"
    using i n by (rule elem_le_sum_list)
  then show ?thesis using assms(1) i by (auto simp: groupsNats_def groupTokens_def)
qed

lemma discoverStep_tokens:
  assumes "groupsNats m" and "tokenValue s \<in> \<nat>"
    and "groupTokens m + (if isSubagentSession s then tokenValue s else 0) \<le> 2 ^ 53"
  shows "groupsNats (discoverStep m s)
    \<and> groupTokens (discoverStep m s) = groupTokens m + (if isSubagentSession s then tokenValue s else 0)"
proof (cases "subagentMatch (orElse (session_key s) [])")
  case None
  then show ?thesis using assms(1) by (simp add: discoverStep_def isSubagentSession_def)
next
  case (Some k)
  then have sub: "isSubagentSession s" by (simp add: isSubagentSession_def)
  show ?thesis
  proof (cases "map_of m k")
    case None
    then show ?thesis
      using Some sub assms(1,2)
      by (simp add: discoverStep_def groupTokens_update_new groupsNats_update)
  next
    case (Some old)
    from group_le_groupTokens[OF assms(1) Some]
    have o: "sd_tokens old \<in> \<nat>" "sd_tokens old \<le> groupTokens m" by simp_all
    have "sd_tokens old + tokenValue s \<le> 2 ^ 53"
      using o(2) assms(3) sub by simp
    then have e: "numberAdd (sd_tokens old) (tokenValue s) = sd_tokens old + tokenValue s"
      using o(1) assms(2) by (intro numberAdd_Nats)
    show ?thesis
      using \<open>subagentMatch (orElse (session_key s) []) = Some k\<close> Some sub assms(1,2) o(1)
      by (simp add: discoverStep_def groupTokens_update_old groupsNats_update e Nats_add)
  qed
qed

lemma discover_tokens:
  assumes "groupsNats m" and "\<forall>s \<in> set ss. tokenValue s \<in> \<nat>"
    and "groupTokens m + (\<Sum>s\<leftarrow>ss. if isSubagentSession s then tokenValue s else 0) \<le> 2 ^ 53"
  shows "groupsNats (foldl discoverStep m ss)
    \<and> groupTokens (foldl discoverStep m ss)
        = groupTokens m + (\<Sum>s\<leftarrow>ss. if isSubagentSession s then tokenValue s else 0)"
  using assms
proof (induction ss arbitrary: m)
  case Nil
  then show ?case by simp
next
  case (Cons s ss)
  let ?t = "if isSubagentSession s then tokenValue s else 0"
  have r: "0 \<le> (\<Sum>s\<leftarrow>ss. if isSubagentSession s then tokenValue s else 0)"
    using Cons.prems(2) by (intro sum_list_nonneg_Nats) simp
  have s: "tokenValue s \<in> \<nat>" using Cons.prems(2) by simp
  have "groupTokens m + ?t \<le> 2 ^ 53" using Cons.prems(3) r by simp
  from discoverStep_tokens[OF Cons.prems(1) s this]
  have st: "groupsNats (discoverStep m s)" "groupTokens (discoverStep m s) = groupTokens m + ?t"
    by simp_all
  have "groupsNats (foldl discoverStep (discoverStep m s) ss)
    \<and> groupTokens (foldl discoverStep (discoverStep m s) ss)
        = groupTokens (discoverStep m s) + (\<Sum>s\<leftarrow>ss. if isSubagentSession s then tokenValue s else 0)"
    using Cons.prems st by (intro Cons.IH) (simp_all add: add.assoc)
  then show ?case by (simp add: st(2) add.assoc)
qed

lemma nameSubagents_tokens:
  "(\<Sum>r\<leftarrow>nameSubagents uc ds i m. tokens r) = groupTokens m"
  by (induction m arbitrary: i) (auto simp: groupTokens_def activeRecord_def)

lemma nameSubagents_Nats:
  "groupsNats m \<Longrightarrow> \<forall>r \<in> set (nameSubagents uc ds i m). tokens r \<in> \<nat>"
  by (induction m arbitrary: i) (auto simp: groupsNats_def activeRecord_def)

lemma idle_tokens: "(\<Sum>r\<leftarrow>idleSubagents uc ds i. tokens r) = 0"
proof -
  have "map tokens (idleSubagents uc ds i) = map (\<lambda>_. 0) [i ..< length ds]"
    by (simp add: idleSubagents_def idleRecord_def comp_def)
  then show ?thesis by simp
qed

lemma idle_Nats: "\<forall>r \<in> set (idleSubagents uc ds i). tokens r \<in> \<nat>"
  by (auto simp: idleSubagents_def idleRecord_def)

lemma subagent_total:
  assumes "\<forall>s \<in> set ss. tokenValue s \<in> \<nat>"
    and "(\<Sum>s\<leftarrow>ss. if isSubagentSession s then tokenValue s else 0) \<le> 2 ^ 53"
  shows "(\<Sum>r\<leftarrow>subagentRecords uc ds ss. tokens r)
           = (\<Sum>s\<leftarrow>ss. if isSubagentSession s then tokenValue s else 0)"
    and "\<forall>r \<in> set (subagentRecords uc ds ss). tokens r \<in> \<nat>"
proof -
  have g: "groupsNats []" "groupTokens [] = 0" by (simp_all add: groupsNats_def groupTokens_def)
  from discover_tokens[OF g(1) assms(1)] assms(2)
  have d: "groupsNats (discoverSubagents ss)"
    "groupTokens (discoverSubagents ss) = (\<Sum>s\<leftarrow>ss. if isSubagentSession s then tokenValue s else 0)"
    by (simp_all add: g(2) discoverSubagents_def)
  show "(\<Sum>r\<leftarrow>subagentRecords uc ds ss. tokens r)
           = (\<Sum>s\<leftarrow>ss. if isSubagentSession s then tokenValue s else 0)"
    by (simp add: subagentRecords_def Let_def nameSubagents_tokens idle_tokens d(2))
  show "\<forall>r \<in> set (subagentRecords uc ds ss). tokens r \<in> \<nat>"
    using nameSubagents_Nats[OF d(1)] idle_Nats by (auto simp: subagentRecords_def Let_def)
qed

lemma matchCount_split:
  "(\<Sum>s\<leftarrow>ss. tokenValue s * of_nat (matchCount as s))
     = (\<Sum>s\<leftarrow>ss. tokenValue s * of_nat (ownerCount as s))
       + (\<Sum>s\<leftarrow>ss. if isSubagentSession s then tokenValue s else 0)"
proof -
  have "(\<Sum>s\<leftarrow>ss. tokenValue s * of_nat (matchCount as s))
      = (\<Sum>s\<leftarrow>ss. tokenValue s * of_nat (ownerCount as s)
            + (if isSubagentSession s then tokenValue s else 0))"
    by (rule arg_cong[where f = sum_list], rule map_cong)
      (simp_all add: matchCount_def ownerCount_def algebra_simps)
  then show ?thesis by (simp add: sum_list_addf)
qed

lemma reconcile_total:
  assumes "reconcileAgents uc (Some p) sj ds = Some out"
    and "\<forall>s \<in> set (extractSessions sj). tokenValue s \<in> \<nat>"
    and "(\<Sum>s\<leftarrow>extractSessions sj. tokenValue s * of_nat (matchCount (extractAgents p) s)) \<le> 2 ^ 53"
  shows "totalTokens out
    = (\<Sum>s\<leftarrow>extractSessions sj. tokenValue s * of_nat (matchCount (extractAgents p) s))"
proof -
  let ?ss = "extractSessions sj" and ?as = "extractAgents p"
  let ?P = "\<Sum>s\<leftarrow>?ss. tokenValue s * of_nat (ownerCount ?as s)"
  let ?S = "\<Sum>s\<leftarrow>?ss. if isSubagentSession s then tokenValue s else 0"
  have out: "out = map (primaryRecord ?ss) ?as @ subagentRecords uc ds ?ss"
    using assms(1) by (simp add: reconcileAgents_def Let_def split: if_splits)
  have P0: "0 \<le> ?P"
    using assms(2) by (intro sum_list_nonneg_Nats) (simp add: Nats_mult)
  have S0: "0 \<le> ?S"
    using assms(2) by (intro sum_list_nonneg_Nats) simp
  have PS: "?P + ?S \<le> 2 ^ 53" using assms(3) by (simp only: matchCount_split)
  then have Pb: "?P \<le> 2 ^ 53" and Sb: "?S \<le> 2 ^ 53" using P0 S0 by simp_all
  note pt = primary_total[OF assms(2) Pb]
  note st = subagent_total[OF assms(2) Sb, of uc ds]
  have nat: "\<forall>r \<in> set out. tokens r \<in> \<nat>"
    using primary_Nats[OF assms(2) Pb] st(2) by (auto simp: out)
  have sum: "(\<Sum>r\<leftarrow>out. tokens r) = ?P + ?S"
    using pt st(1) by (simp add: out comp_def)
  have "totalTokens out = 0 + (\<Sum>r\<leftarrow>out. tokens r)"
    unfolding totalTokens_def using nat PS by (intro foldl_numberAdd) (simp_all add: sum)
  then show ?thesis by (simp add: sum matchCount_split)
qed

lemma matched_once:
  assumes "\<forall>s \<in> set ss. matchCount as s \<le> 1"
  shows "(\<Sum>s\<leftarrow>ss. tokenValue s * of_nat (matchCount as s)) = matchedTokens as ss"
  using assms unfolding matchedTokens_def
proof (induction ss)
  case Nil
  then show ?case by simp
next
  case (Cons s ss)
  then have "matchCount as s = 0 \<or> matchCount as s = 1" by (simp add: le_Suc_eq)
  with Cons show ?case by auto
qed

text \<open>
  C1 (as amended).  When the token counts of the sessions are natural numbers and their
  total, each session counted once for every rule it matches, is at most \<open>2^53\<close> (so that
  no sum of doubles is rounded), the tokens of the reconciled output add up to that
  total: a session is counted once for each primary agent whose prefix \<open>agent:<id>:\<close> its
  key starts with, and once more if its key matches the secondary pattern.  A session
  that matches no rule is dropped; when no session matches more than one rule, the total
  is the sum over the matched sessions, each counted once.
\<close>

theorem C1_tokens_counted_per_match:
  assumes "reconcileAgents uc (Some p) sessionsJson definedSubAgents = Some out"
    and "\<forall>s \<in> set (extractSessions sessionsJson). tokenValue s \<in> \<nat>"
    and "(\<Sum>s\<leftarrow>extractSessions sessionsJson.
            tokenValue s * of_nat (matchCount (extractAgents p) s)) \<le> 2 ^ 53"
  shows "totalTokens out
           = (\<Sum>s\<leftarrow>extractSessions sessionsJson.
                tokenValue s * of_nat (matchCount (extractAgents p) s))
       \<and> ((\<forall>s \<in> set (extractSessions sessionsJson). matchCount (extractAgents p) s \<le> 1) \<longrightarrow>
            totalTokens out = matchedTokens (extractAgents p) (extractSessions sessionsJson))"
  using reconcile_total[OF assms] matched_once by simp

lemma idle_all: "idleSubagents uc ds 0 = map (\<lambda>f. idleRecord (displayName uc f)) ds"
proof -
  have "map (\<lambda>i. idleRecord (displayName uc (ds ! i))) [0 ..< length ds]
      = map (\<lambda>f. idleRecord (displayName uc f)) (map ((!) ds) [0 ..< length ds])"
    by (simp add: comp_def)
  then show ?thesis by (simp add: idleSubagents_def map_nth)
qed

lemma reconcile_Clawd:
  "reconcileAgents uc (Some (Response (Some [agentClawd]))) (Some (Response (Some [sessionClawd]))) ds
     = Some (recordClawd # map (\<lambda>f. idleRecord (displayName uc f)) ds)"
  by (simp add: reconcileAgents_def extractAgents_def extractSessions_def primaryRecord_def
      subagentRecords_def discover_sessionClawd ownedBy_sessionClawd idle_all Let_def)
    (simp add: agentClawd_def sessionClawd_def tokenValue_def recordClawd_def numberAdd_small
      costOf_1000)

theorem C1_tokens_counted_per_match_witness:
  "reconcileAgents (\<lambda>c. [c]) (Some (Response (Some [agentClawd])))
       (Some (Response (Some [sessionClawd]))) []
     = Some [recordClawd]
   \<and> matchCount [agentClawd] sessionClawd = 1
   \<and> matchedTokens [agentClawd] [sessionClawd] = 1000
   \<and> totalTokens [recordClawd] = matchedTokens [agentClawd] [sessionClawd]
   \<and> map (matchCount [agentClawd]) [sessionClawd, sessionSub2, sessionStray] = [1, 1, 0]
   \<and> map tokenValue [sessionClawd, sessionSub2, sessionStray] = [1000, 7, 3]
   \<and> map_option totalTokens
        (reconcileAgents (\<lambda>c. [c]) (Some (Response (Some [agentClawd])))
           (Some (Response (Some [sessionClawd, sessionSub2, sessionStray]))) []) = Some 1007
   \<and> matchedTokens [agentClawd] [sessionClawd, sessionSub2, sessionStray] = 1007"
proof -
  have r: "reconcileAgents (\<lambda>c. [c]) (Some (Response (Some [agentClawd])))
       (Some (Response (Some [sessionClawd]))) [] = Some [recordClawd]"
    by (simp add: reconcile_Clawd)
  have c: "matchCount [agentClawd] sessionClawd = 1"
    by (simp add: matchCount_def ownedBy_sessionClawd isSubagentSession_def)
      (simp add: sessionClawd_def subagentMatch_sessionClawd)
  have m: "matchedTokens [agentClawd] [sessionClawd] = 1000"
    by (simp add: matchedTokens_def c) (simp add: sessionClawd_def tokenValue_def)
  have t: "tokenValue sessionClawd = 1000"
    by (simp add: sessionClawd_def tokenValue_def)
  have n: "\<forall>s \<in> set (extractSessions (Some (Response (Some [sessionClawd])))). tokenValue s \<in> \<nat>"
    by (simp add: extractSessions_def t)
  have b: "(\<Sum>s\<leftarrow>extractSessions (Some (Response (Some [sessionClawd]))).
              tokenValue s * of_nat (matchCount (extractAgents (Response (Some [agentClawd]))) s))
            \<le> 2 ^ 53"
    by (simp add: extractAgents_def extractSessions_def c t)
  from C1_tokens_counted_per_match[OF r n b]
  have one: "totalTokens [recordClawd] = matchedTokens [agentClawd] [sessionClawd]"
    by (simp add: extractAgents_def extractSessions_def c)
  let ?ss = "[sessionClawd, sessionSub2, sessionStray]"
  let ?out = "map (primaryRecord ?ss) [agentClawd] @ subagentRecords (\<lambda>c. [c]) [] ?ss"
  have r3: "reconcileAgents (\<lambda>c. [c]) (Some (Response (Some [agentClawd])))
       (Some (Response (Some ?ss))) [] = Some ?out"
    by (simp add: reconcileAgents_def extractAgents_def extractSessions_def Let_def)
  have o2: "\<not> ownedBy (agentPrefix agentClawd) sessionSub2"
    "\<not> ownedBy (agentPrefix agentClawd) sessionStray"
    by (simp_all add: ownedBy_def agentPrefix_def agentClawd_def sessionSub2_def sessionStray_def
        startsWith_def js_def)
  have s2: "isSubagentSession sessionSub2"
    by (simp add: isSubagentSession_def sessionSub2_def subagentMatch_sessionSub2)
  have s3: "\<not> isSubagentSession sessionStray"
    by (simp add: isSubagentSession_def sessionStray_def subagentMatch_def subagentRe_def re_eval
        js_def isHexOrHyphen_def)
  have c3: "map (matchCount [agentClawd]) ?ss = [1, 1, 0]"
    using c by (simp add: matchCount_def o2 s2 s3)
  have t3: "map tokenValue ?ss = [1000, 7, 3]"
    by (simp add: t) (simp add: tokenValue_def sessionSub2_def sessionStray_def)
  have n3: "\<forall>s \<in> set (extractSessions (Some (Response (Some ?ss)))). tokenValue s \<in> \<nat>"
    using t3 by (simp add: extractSessions_def)
  have sum3: "(\<Sum>s\<leftarrow>extractSessions (Some (Response (Some ?ss))).
              tokenValue s * of_nat (matchCount (extractAgents (Response (Some [agentClawd]))) s))
            = 1007"
    using c3 t3 by (simp add: extractAgents_def extractSessions_def)
  have b3: "(\<Sum>s\<leftarrow>extractSessions (Some (Response (Some ?ss))).
              tokenValue s * of_nat (matchCount (extractAgents (Response (Some [agentClawd]))) s))
            \<le> 2 ^ 53"
    unfolding sum3 by simp
  have le3: "\<forall>s \<in> set (extractSessions (Some (Response (Some ?ss)))).
      matchCount (extractAgents (Response (Some [agentClawd]))) s \<le> 1"
    using c3 by (simp add: extractAgents_def extractSessions_def)
  from C1_tokens_counted_per_match[OF r3 n3 b3] le3
  have "totalTokens ?out = 1007"
    and "totalTokens ?out = matchedTokens (extractAgents (Response (Some [agentClawd])))
           (extractSessions (Some (Response (Some ?ss))))"
    unfolding sum3 by blast+
  then have "map_option totalTokens
        (reconcileAgents (\<lambda>c. [c]) (Some (Response (Some [agentClawd])))
           (Some (Response (Some ?ss))) []) = Some 1007"
    and "matchedTokens [agentClawd] ?ss = 1007"
    by (simp_all add: r3 extractAgents_def extractSessions_def)
  with r c m one c3 t3 show ?thesis by simp
qed

text \<open>
  C1 as stated fails: with a primary agent of id \<open>main\<close>, the session
  \<open>agent:main:subagent:ab\<close> of 5 tokens matches the prefix of that agent and the secondary
  pattern, and is counted in both records: the output totals 10, the matched sessions 5.
\<close>

theorem C1_counterexample:
  "map_option totalTokens
     (reconcileAgents (\<lambda>c. [c]) (Some (Response (Some [agentMain])))
        (Some (Response (Some [sessionSub]))) [])
     = Some 10
   \<and> matchedTokens [agentMain] [sessionSub] = 5"
  by (simp add: reconcileAgents_def extractAgents_def extractSessions_def primaryRecord_def
      subagentRecords_def discover_sessionSub ownedBy_sessionSub
      idleSubagents_def activeRecord_def totalTokens_def matchedTokens_def matchCount_def
      isSubagentSession_def Let_def)
    (simp add: sessionSub_def tokenValue_def numberAdd_small)

text \<open>
  Beyond the bound the sums are rounded: an agent with a session of 9007199254740991
  tokens and a session of 2 tokens shows 9007199254740992 tokens.
\<close>

definition sessionLarge :: OpenClawSession where
  "sessionLarge = \<lparr> session_key = Some (js ''agent:a1:s1''),
     session_totalTokens = Some 9007199254740991, session_outputTokens = None,
     session_model = None \<rparr>"

definition sessionTwo :: OpenClawSession where
  "sessionTwo = \<lparr> session_key = Some (js ''agent:a1:s2''), session_totalTokens = Some 2,
     session_outputTokens = None, session_model = None \<rparr>"

lemma numberAdd_large: "numberAdd 0 9007199254740991 = 9007199254740991"
  by (simp add: numberAdd_def binary64_numeral)

lemma tokens_rounded:
  "tokens (primaryRecord [sessionLarge, sessionTwo] agentClawd) = 9007199254740992"
proof -
  have o: "ownedBy (agentPrefix agentClawd) sessionLarge" "ownedBy (agentPrefix agentClawd) sessionTwo"
    by (simp_all add: ownedBy_def agentPrefix_def agentClawd_def sessionLarge_def sessionTwo_def
        startsWith_def js_def)
  have t: "tokenValue sessionLarge = 9007199254740991" "tokenValue sessionTwo = 2"
    by (simp_all add: tokenValue_def sessionLarge_def sessionTwo_def)
  show ?thesis
    by (simp add: primaryRecord_def Let_def o t numberAdd_large numberAdd_beyond)
qed

subsection \<open>Secondary identities\<close>

lemma length_nameSubagents: "length (nameSubagents uc ds i m) = length m"
  by (induction m arbitrary: i) auto

lemma names_nameSubagents:
  "map name (nameSubagents uc ds i m) = map (subagentName uc ds) [i ..< i + length m]"
proof (induction m arbitrary: i)
  case Nil
  then show ?case by simp
next
  case (Cons g m)
  obtain k d where g: "g = (k, d)" by (cases g)
  have "[i ..< i + length (g # m)] = i # [Suc i ..< Suc i + length m]"
    by (subst upt_rec) simp
  with Cons[of "Suc i"] show ?case by (simp add: g activeRecord_def)
qed

lemma states_nameSubagents:
  "map state (nameSubagents uc ds i m) = replicate (length m) (js ''Active'')"
  by (induction m arbitrary: i) (auto simp: activeRecord_def)

lemma usage_nameSubagents:
  "map usage (nameSubagents uc ds i m) = map groupUsage m"
  by (induction m arbitrary: i) (auto simp: activeRecord_def usage_def groupUsage_def)

lemma length_idleSubagents: "length (idleSubagents uc ds i) = length ds - i"
  by (simp add: idleSubagents_def)

lemma names_idleSubagents:
  "map name (idleSubagents uc ds i) = map (\<lambda>j. displayName uc (ds ! j)) [i ..< length ds]"
  by (simp add: idleSubagents_def idleRecord_def comp_def)

lemma states_idleSubagents:
  "map state (idleSubagents uc ds i) = replicate (length ds - i) (js ''Idle'')"
  by (simp add: idleSubagents_def idleRecord_def comp_def map_replicate_const)

lemma usage_idleSubagents:
  "map usage (idleSubagents uc ds i) = replicate (length ds - i) (0, 0)"
  by (simp add: idleSubagents_def idleRecord_def usage_def comp_def map_replicate_const)

lemma map_nth_slice: "j \<le> length ds \<Longrightarrow> map ((!) ds) [i ..< j] = drop i (take j ds)"
  by (rule nth_equalityI) auto

lemma names_defined:
  assumes "m \<le> length ds"
  shows "map (subagentName uc ds) [0 ..< m] = map (displayName uc) (take m ds)"
proof -
  have "map (subagentName uc ds) [0 ..< m] = map (\<lambda>j. displayName uc (ds ! j)) [0 ..< m]"
    using assms by (intro map_cong) (auto simp: subagentName_def)
  also have "\<dots> = map (displayName uc) (map ((!) ds) [0 ..< m])"
    by (simp add: comp_def)
  also have "map ((!) ds) [0 ..< m] = take m ds"
    using assms by (simp add: map_nth_slice)
  finally show ?thesis .
qed

lemma names_generic:
  "map (subagentName uc ds) [length ds ..< m]
     = map (\<lambda>i. js ''Sub-agent '' @ showNat (i + 1)) [length ds ..< m]"
  by (intro map_cong) (auto simp: subagentName_def)

text \<open>
  C5.  With \<open>N\<close> known identities and \<open>M\<close> discovered groups: if \<open>M \<le> N\<close> the secondary
  output has exactly \<open>N\<close> records, named after the identities in order, the first \<open>M\<close>
  Active with the usage of the groups and the other \<open>N - M\<close> Idle with zero usage; if
  \<open>M > N\<close> it has exactly \<open>M\<close> records, all Active with the usage of the groups, the
  first \<open>N\<close> named after the identities and the others \<open>Sub-agent k\<close> for their position
  \<open>k\<close> (counted from 1).
\<close>

theorem C5_secondary_record_counts:
  fixes uc definedSubAgents sessionList
  defines "groups \<equiv> discoverSubagents sessionList"
    and "out \<equiv> subagentRecords uc definedSubAgents sessionList"
  shows "(length groups \<le> length definedSubAgents \<longrightarrow>
            length out = length definedSubAgents
          \<and> map name out = map (displayName uc) definedSubAgents
          \<and> map state out = replicate (length groups) (js ''Active'')
                @ replicate (length definedSubAgents - length groups) (js ''Idle'')
          \<and> map usage out = map groupUsage groups
                @ replicate (length definedSubAgents - length groups) (0, 0))
       \<and> (length definedSubAgents < length groups \<longrightarrow>
            length out = length groups
          \<and> map name out = map (displayName uc) definedSubAgents
                @ map (\<lambda>i. js ''Sub-agent '' @ showNat (i + 1))
                    [length definedSubAgents ..< length groups]
          \<and> map state out = replicate (length groups) (js ''Active'')
          \<and> map usage out = map groupUsage groups)"
proof (intro conjI impI)
  let ?ds = definedSubAgents
  assume le: "length groups \<le> length ?ds"
  show "length out = length ?ds"
    using le by (simp add: out_def groups_def subagentRecords_def Let_def length_nameSubagents
        length_idleSubagents)
  have "map name out = map (subagentName uc ?ds) [0 ..< length groups]
          @ map (\<lambda>j. displayName uc (?ds ! j)) [length groups ..< length ?ds]"
    using names_nameSubagents[of uc ?ds 0 groups]
    by (simp add: out_def groups_def subagentRecords_def Let_def names_idleSubagents)
  also have "map (\<lambda>j. displayName uc (?ds ! j)) [length groups ..< length ?ds]
      = map (displayName uc) (drop (length groups) ?ds)"
  proof -
    have "map (\<lambda>j. displayName uc (?ds ! j)) [length groups ..< length ?ds]
        = map (displayName uc) (map ((!) ?ds) [length groups ..< length ?ds])"
      by (simp add: comp_def)
    then show ?thesis by (simp add: map_nth_slice)
  qed
  finally show "map name out = map (displayName uc) ?ds"
    using le by (simp add: names_defined flip: map_append)
next
  assume "length groups \<le> length definedSubAgents"
  show "map state out = replicate (length groups) (js ''Active'')
          @ replicate (length definedSubAgents - length groups) (js ''Idle'')"
    by (simp add: out_def groups_def subagentRecords_def Let_def states_nameSubagents
        states_idleSubagents)
next
  assume "length groups \<le> length definedSubAgents"
  show "map usage out = map groupUsage groups
          @ replicate (length definedSubAgents - length groups) (0, 0)"
    by (simp add: out_def groups_def subagentRecords_def Let_def usage_nameSubagents
        usage_idleSubagents)
next
  let ?ds = definedSubAgents
  assume lt: "length ?ds < length groups"
  show "length out = length groups"
    using lt by (simp add: out_def groups_def subagentRecords_def Let_def length_nameSubagents
        length_idleSubagents)
  have idle: "idleSubagents uc ?ds (length groups) = []"
    using lt by (simp add: idleSubagents_def)
  have split: "[0 ..< length groups] = [0 ..< length ?ds] @ [length ?ds ..< length groups]"
    using lt by (metis le_add_diff_inverse less_imp_le_nat upt_add_eq_append zero_le)
  have "map name out = map (subagentName uc ?ds) [0 ..< length groups]"
    using names_nameSubagents[of uc ?ds 0 groups] idle
    by (simp add: out_def groups_def subagentRecords_def Let_def)
  then show "map name out = map (displayName uc) ?ds
                @ map (\<lambda>i. js ''Sub-agent '' @ showNat (i + 1)) [length ?ds ..< length groups]"
    unfolding split by (simp add: names_defined names_generic)
  show "map state out = replicate (length groups) (js ''Active'')"
    using idle by (simp add: out_def groups_def subagentRecords_def Let_def states_nameSubagents)
  show "map usage out = map groupUsage groups"
    using idle by (simp add: out_def groups_def subagentRecords_def Let_def usage_nameSubagents)
qed

lemma js_ab_cd: "js ''ab'' \<noteq> js ''cd''" "js ''cd'' \<noteq> js ''ab''"
  by (simp_all add: js_def)

lemma discover_three:
  "discoverSubagents [sessionSub, sessionSub2, sessionSub]
     = [(js ''ab'', \<lparr> sd_model = defaultModel, sd_sessions = 2, sd_tokens = 10 \<rparr>),
        (js ''cd'', \<lparr> sd_model = js ''m'', sd_sessions = 1, sd_tokens = 7 \<rparr>)]"
  by (simp add: discoverSubagents_def discoverStep_def sessionSub_def sessionSub2_def
      subagentMatch_sessionSub subagentMatch_sessionSub2 tokenValue_def js_ab_cd numberAdd_small)

lemma displayName_planner: "displayName uc (js ''planner'') = js ''Planner''"
  by (simp add: displayName_def js_def capitalize_def toUpperCase1_def)

lemma showNat_2: "showNat (Suc (Suc 0)) = js ''2''"
  by (simp add: showNat.simps js_def)

theorem C5_secondary_record_counts_witness:
  "length (discoverSubagents [sessionSub]) = 1
   \<and> map name (subagentRecords (\<lambda>c. [c]) [js ''code-reviewer'', js ''planner''] [sessionSub])
        = [js ''Code Reviewer'', js ''Planner'']
   \<and> map state (subagentRecords (\<lambda>c. [c]) [js ''code-reviewer'', js ''planner''] [sessionSub])
        = [js ''Active'', js ''Idle'']
   \<and> map usage (subagentRecords (\<lambda>c. [c]) [js ''code-reviewer'', js ''planner''] [sessionSub])
        = [(1, 5), (0, 0)]
   \<and> length (discoverSubagents [sessionSub, sessionSub2, sessionSub]) = 2
   \<and> map name (subagentRecords (\<lambda>c. [c]) [js ''code-reviewer'']
          [sessionSub, sessionSub2, sessionSub])
        = [js ''Code Reviewer'', js ''Sub-agent 2'']
   \<and> map state (subagentRecords (\<lambda>c. [c]) [js ''code-reviewer'']
          [sessionSub, sessionSub2, sessionSub])
        = [js ''Active'', js ''Active'']
   \<and> map usage (subagentRecords (\<lambda>c. [c]) [js ''code-reviewer'']
          [sessionSub, sessionSub2, sessionSub])
        = [(2, 10), (1, 7)]"
  using
    C5_secondary_record_counts[of "[sessionSub]" "[js ''code-reviewer'', js ''planner'']" "\<lambda>c. [c]"]
    C5_secondary_record_counts[of "[sessionSub, sessionSub2, sessionSub]" "[js ''code-reviewer'']"
      "\<lambda>c. [c]"]
  by (simp add: discover_sessionSub discover_three displayName_code_reviewer displayName_planner
      groupUsage_def showNat_2) (simp add: js_def)

subsection \<open>State and cost of a record\<close>









section \<open>Cron adapter\<close>

text \<open>
  What a call can throw.  A function that can throw returns \<open>exn + 'a\<close>, with \<open>Inl\<close> for
  the exception; \<open>andThen\<close> runs the rest of a body after a call that did not throw.
\<close>

datatype exn = RangeError | SyntaxError | TypeError | ExecError | FsError | FetchError

definition andThen :: "exn + 'a \<Rightarrow> ('a \<Rightarrow> exn + 'b) \<Rightarrow> exn + 'b" where
  "andThen r f = (case r of Inl e \<Rightarrow> Inl e | Inr x \<Rightarrow> f x)"

text \<open>\<open>xs.map(f)\<close> for a callback that can throw: the first exception ends the loop.\<close>

fun mapThrowing :: "('a \<Rightarrow> exn + 'b) \<Rightarrow> 'a list \<Rightarrow> exn + 'b list" where
  "mapThrowing f [] = Inr []"
| "mapThrowing f (x # xs) =
     andThen (f x) (\<lambda>y. andThen (mapThrowing f xs) (\<lambda>ys. Inr (y # ys)))"

subsection \<open>\<open>Date.prototype.toISOString\<close>\<close>

text \<open>
  The date of ECMAScript: a time value is a number of milliseconds since the epoch, a
  day has 86400000 of them, and the calendar is the proleptic Gregorian one.
  \<open>civilFromDays\<close> is the year, month and day of a day number.
\<close>

definition civilFromDays :: "int \<Rightarrow> int \<times> int \<times> int" where
  "civilFromDays days =
     (let z = days + 719468;
          era = z div 146097;
          doe = z mod 146097;
          yoe = (doe - doe div 1460 + doe div 36524 - doe div 146096) div 365;
          doy = doe - (365 * yoe + yoe div 4 - yoe div 100);
          mp = (5 * doy + 2) div 153;
          d = doy - (153 * mp + 2) div 5 + 1;
          m = (if mp < 10 then mp + 3 else mp - 9);
          y = yoe + era * 400 + (if m \<le> 2 then 1 else 0)
      in (y, m, d))"

text \<open>A non-negative integer in decimal, padded with zeros on the left to a width.\<close>

definition pad :: "nat \<Rightarrow> int \<Rightarrow> jsstring" where
  "pad width n = (let ds = showNat (nat n) in replicate (width - length ds) 48 @ ds)"

text \<open>Years 0 to 9999 print with four digits, the others with a sign and six.\<close>

definition isoYear :: "int \<Rightarrow> jsstring" where
  "isoYear y =
     (if 0 \<le> y \<and> y \<le> 9999 then pad 4 y
      else if y < 0 then js ''-'' @ pad 6 (- y) else js ''+'' @ pad 6 y)"

definition toISOString :: "int \<Rightarrow> jsstring" where
  "toISOString t =
     (let (y, m, d) = civilFromDays (t div 86400000);
          ms = t mod 86400000
      in isoYear y @ js ''-'' @ pad 2 m @ js ''-'' @ pad 2 d @ js ''T''
           @ pad 2 (ms div 3600000) @ js '':'' @ pad 2 (ms div 60000 mod 60) @ js '':''
           @ pad 2 (ms div 1000 mod 60) @ js ''.'' @ pad 3 (ms mod 1000) @ js ''Z'')"

text \<open>
  \<open>new Date(value).toISOString()\<close> for a finite number: the time value is the number
  truncated towards zero, and the date is invalid beyond 8.64e15 milliseconds from the
  epoch, where \<open>toISOString\<close> throws a \<open>RangeError\<close>.
\<close>

definition toInteger :: "rat \<Rightarrow> int" where
  "toInteger x = (if 0 \<le> x then \<lfloor>x\<rfloor> else \<lceil>x\<rceil>)"

definition dateToISOString :: "rat \<Rightarrow> exn + jsstring" where
  "dateToISOString v =
     (if \<bar>v\<bar> \<le> 8640000000000000 then Inr (toISOString (toInteger v)) else Inl RangeError)"

subsection \<open>Jobs\<close>

text \<open>
  \<open>OpenClawJob\<close> at its declared type; a timestamp field of type \<open>string | number\<close> is a
  \<open>tsvalue\<close>, a number the exact value of a finite double.
\<close>

datatype tsvalue = TNum rat | TStr jsstring

record JobPayload =
  payload_name :: "jsstring option"
  payload_text :: "jsstring option"

record JobState =
  st_lastStatus :: "jsstring option"
  st_status :: "jsstring option"
  st_nextRunAtMs :: "rat option"
  st_next_run :: "tsvalue option"
  st_lastRunAtMs :: "rat option"
  st_last_run :: "tsvalue option"
  st_lastRun :: "tsvalue option"

record OpenClawJob =
  job_id :: "jsstring option"
  job_name :: "jsstring option"
  job_payload :: "JobPayload option"
  job_state :: "JobState option"

record CronRecord =
  cron_name :: jsstring
  cron_status :: jsstring
  nextRun :: jsstring
  lastRun :: jsstring

record Crons =
  crons_status :: jsstring
  jobs :: "CronRecord list"

text \<open>\<open>a ?? b\<close>\<close>

definition nullish :: "'a option \<Rightarrow> 'a option \<Rightarrow> 'a option" where
  "nullish a b = (case a of None \<Rightarrow> b | Some x \<Rightarrow> Some x)"

definition formatTimestamp :: "tsvalue option \<Rightarrow> exn + jsstring" where
  "formatTimestamp v =
     (case v of
        Some (TNum n) \<Rightarrow> dateToISOString n
      | Some (TStr s) \<Rightarrow> if trim s \<noteq> [] then Inr s else Inr (js ''Unknown'')
      | None \<Rightarrow> Inr (js ''Unknown''))"

definition emptyState :: JobState where
  "emptyState = \<lparr> st_lastStatus = None, st_status = None, st_nextRunAtMs = None, st_next_run = None,
     st_lastRunAtMs = None, st_last_run = None, st_lastRun = None \<rparr>"

text \<open>The body of \<open>jobs.map\<close> in \<open>fetchCronStatus\<close> (and of \<open>processCrons\<close>).\<close>

definition mapJob :: "OpenClawJob \<Rightarrow> exn + CronRecord" where
  "mapJob job =
     (let st = (case job_state job of None \<Rightarrow> emptyState | Some x \<Rightarrow> x);
          jobName =
            orElse (job_name job)
              (orElse (Option.bind (job_payload job) payload_name)
                (orElse (Option.bind (job_payload job) payload_text)
                  (orElse (job_id job) (js ''Unnamed cron''))));
          status = orElse (st_lastStatus st) (orElse (st_status st) (js ''unknown''))
      in andThen (formatTimestamp (nullish (map_option TNum (st_nextRunAtMs st)) (st_next_run st)))
           (\<lambda>next.
         andThen (formatTimestamp
                    (nullish (map_option TNum (st_lastRunAtMs st))
                       (nullish (st_last_run st) (st_lastRun st))))
           (\<lambda>last.
         Inr \<lparr> cron_name = jobName, cron_status = status, nextRun = next, lastRun = last \<rparr>)))"

definition extractJobs :: "OpenClawJob payload \<Rightarrow> OpenClawJob list" where
  "extractJobs p = (case p of TopArray xs \<Rightarrow> [] | Response None \<Rightarrow> [] | Response (Some xs) \<Rightarrow> xs)"

text \<open>\<open>fetchCronStatus\<close> after its call of \<open>runOpenClawJson\<close>, whose result is the argument.\<close>

definition cronStatus :: "OpenClawJob payload option \<Rightarrow> exn + Crons option" where
  "cronStatus cronJson =
     (case cronJson of
        None \<Rightarrow> Inr None
      | Some p \<Rightarrow>
          (let jobList = extractJobs p in
           if jobList = [] then Inr None
           else andThen (mapThrowing mapJob jobList)
                  (\<lambda>mapped. Inr (Some \<lparr> crons_status = js ''available'', jobs = mapped \<rparr>))))"

text \<open>The job of the scenario: \<open>{"name":"backup","state":{"status":"ok","nextRunAtMs":1700000000000}}\<close>\<close>

definition jobBackup :: OpenClawJob where
  "jobBackup = \<lparr> job_id = None, job_name = Some (js ''backup''), job_payload = None,
     job_state = Some (emptyState \<lparr> st_status := Some (js ''ok''),
                                   st_nextRunAtMs := Some 1700000000000 \<rparr>) \<rparr>"

subsection \<open>Evaluation\<close>

lemma replicate_numeral: "replicate (numeral k) x = x # replicate (pred_numeral k) x"
  by (simp add: numeral_eq_Suc)

lemma toISOString_scenario: "toISOString 1700000000000 = js ''2023-11-14T22:13:20.000Z''"
  unfolding toISOString_def civilFromDays_def Let_def isoYear_def pad_def
  by (simp add: showNat.simps js_def replicate_numeral)

lemma toISOString_epoch: "toISOString 0 = js ''1970-01-01T00:00:00.000Z''"
  unfolding toISOString_def civilFromDays_def Let_def isoYear_def pad_def
  by (simp add: showNat.simps js_def replicate_numeral)

lemma toISOString_before_epoch: "toISOString (- 1) = js ''1969-12-31T23:59:59.999Z''"
  unfolding toISOString_def civilFromDays_def Let_def isoYear_def pad_def
  by (simp add: showNat.simps js_def replicate_numeral)

lemma toISOString_leap_day: "toISOString 1709164800000 = js ''2024-02-29T00:00:00.000Z''"
  unfolding toISOString_def civilFromDays_def Let_def isoYear_def pad_def
  by (simp add: showNat.simps js_def replicate_numeral)

lemma toISOString_no_leap_day: "toISOString 4107542399999 = js ''2100-02-28T23:59:59.999Z''"
  unfolding toISOString_def civilFromDays_def Let_def isoYear_def pad_def
  by (simp add: showNat.simps js_def replicate_numeral)

lemma toISOString_last: "toISOString 8640000000000000 = js ''+275760-09-13T00:00:00.000Z''"
  unfolding toISOString_def civilFromDays_def Let_def isoYear_def pad_def
  by (simp add: showNat.simps js_def replicate_numeral)

lemma toISOString_first: "toISOString (- 8640000000000000) = js ''-271821-04-20T00:00:00.000Z''"
  unfolding toISOString_def civilFromDays_def Let_def isoYear_def pad_def
  by (simp add: showNat.simps js_def replicate_numeral)

lemma mapJob_jobBackup:
  "mapJob jobBackup = Inr \<lparr> cron_name = js ''backup'', cron_status = js ''ok'',
     nextRun = js ''2023-11-14T22:13:20.000Z'', lastRun = js ''Unknown'' \<rparr>"
  by (simp add: mapJob_def jobBackup_def emptyState_def nullish_def formatTimestamp_def
      dateToISOString_def toInteger_def andThen_def toISOString_scenario)

lemma trim_blank: "trim (js '' '') = []"
  by (simp add: trim_def trimStart_def trimEnd_def isSpace_def js_def)

text \<open>
  C7 (as amended).  The job \<open>{"name":"backup","state":{"status":"ok","nextRunAtMs":1700000000000}}\<close>
  is mapped to \<open>{name:"backup", status:"ok", nextRun:"2023-11-14T22:13:20.000Z", lastRun:"Unknown"}\<close>.
  A timestamp field that is a number within the range of dates (at most 8.64e15
  milliseconds from the epoch) becomes the ISO string of its integer part; one that is a
  string with a character that is not white space is passed through unchanged; a string
  of white space only, an empty string and an absent field give \<open>Unknown\<close>.
\<close>

theorem C7_cron_record_mapping:
  "mapJob jobBackup = Inr \<lparr> cron_name = js ''backup'', cron_status = js ''ok'',
       nextRun = js ''2023-11-14T22:13:20.000Z'', lastRun = js ''Unknown'' \<rparr>
   \<and> cronStatus (Some (Response (Some [jobBackup])))
       = Inr (Some \<lparr> crons_status = js ''available'',
            jobs = [\<lparr> cron_name = js ''backup'', cron_status = js ''ok'',
                      nextRun = js ''2023-11-14T22:13:20.000Z'', lastRun = js ''Unknown'' \<rparr>] \<rparr>)
   \<and> (\<forall>n. \<bar>n\<bar> \<le> 8640000000000000 \<longrightarrow>
          formatTimestamp (Some (TNum n)) = Inr (toISOString (toInteger n)))
   \<and> (\<forall>s. trim s \<noteq> [] \<longrightarrow> formatTimestamp (Some (TStr s)) = Inr s)
   \<and> (\<forall>s. trim s = [] \<longrightarrow> formatTimestamp (Some (TStr s)) = Inr (js ''Unknown''))
   \<and> formatTimestamp None = Inr (js ''Unknown'')"
proof -
  have c: "cronStatus (Some (Response (Some [jobBackup])))
       = Inr (Some \<lparr> crons_status = js ''available'',
            jobs = [\<lparr> cron_name = js ''backup'', cron_status = js ''ok'',
                      nextRun = js ''2023-11-14T22:13:20.000Z'', lastRun = js ''Unknown'' \<rparr>] \<rparr>)"
    by (simp add: cronStatus_def extractJobs_def mapJob_jobBackup andThen_def)
  show ?thesis
    by (simp add: mapJob_jobBackup c formatTimestamp_def dateToISOString_def)
qed

theorem C7_cron_record_mapping_witness:
  "formatTimestamp (Some (TNum 1700000000000)) = Inr (js ''2023-11-14T22:13:20.000Z'')
   \<and> formatTimestamp (Some (TStr (js ''soon''))) = Inr (js ''soon'')
   \<and> formatTimestamp (Some (TStr (js '' ''))) = Inr (js ''Unknown'')"
proof -
  have t: "trim (js ''soon'') \<noteq> []"
    by (simp add: trim_def trimStart_def trimEnd_def isSpace_def js_def)
  have i: "toInteger 1700000000000 = 1700000000000"
    by (simp add: toInteger_def)
  from C7_cron_record_mapping
  have n: "\<And>n. \<bar>n\<bar> \<le> 8640000000000000 \<Longrightarrow>
          formatTimestamp (Some (TNum n)) = Inr (toISOString (toInteger n))"
    and s: "\<And>s. trim s \<noteq> [] \<Longrightarrow> formatTimestamp (Some (TStr s)) = Inr s"
    and b: "\<And>s. trim s = [] \<Longrightarrow> formatTimestamp (Some (TStr s)) = Inr (js ''Unknown'')"
    by simp_all
  show ?thesis
    using n[of 1700000000000] s[OF t] b[OF trim_blank] by (simp add: i toISOString_scenario)
qed

text \<open>
  C7 as stated fails twice: the string of one space is not empty and is not passed
  through, and a number beyond the range of dates is not turned into an ISO string
  (\<open>toISOString\<close> throws).
\<close>

theorem C7_counterexample:
  "js '' '' \<noteq> []
   \<and> formatTimestamp (Some (TStr (js '' ''))) = Inr (js ''Unknown'')
   \<and> js ''Unknown'' \<noteq> js '' ''
   \<and> formatTimestamp (Some (TNum 10000000000000000)) = Inl RangeError"
  by (simp add: formatTimestamp_def trim_blank dateToISOString_def) (simp add: js_def)

section \<open>Record-Window Parser\<close>

text \<open>\<open>content.split(/\r?\n/)\<close>: a line ends at a line feed, with the carriage return before it.\<close>

fun splitLines :: "jsstring \<Rightarrow> jsstring list" where
  "splitLines [] = [[]]"
| "splitLines [x] = (if x = 10 then [[], []] else [[x]])"
| "splitLines (x # y # xs) =
     (if x = 13 \<and> y = 10 then [] # splitLines xs
      else if x = 10 then [] # splitLines (y # xs)
      else (let r = splitLines (y # xs) in (x # hd r) # tl r))"

text \<open>The regular expressions of \<open>parseB2LHorses\<close>, in the order of the source.\<close>

definition digit :: re where
  "digit = Cls isDigit"

definition space :: re where
  "space = Cls isSpace"

text \<open>\<open>\d{4}-\d{2}-\d{2}\<close>\<close>

definition isoDate :: re where
  "isoDate = seqs [rtimes 4 digit, chr CHR ''-'', rtimes 2 digit, chr CHR ''-'', rtimes 2 digit]"

text \<open>\<open>/^##\s+(\d{4}-\d{2}-\d{2})/\<close>\<close>

definition dateHeadingRe :: re where
  "dateHeadingRe = seqs [Bol, lit ''##'', rplus space, Cap 1 isoDate]"

text \<open>
  \<open>/^- \*\*(.+?)\*\*\s+-\s+\*([^*]+)\*\s*[:\-E]*\s*(.*)$/\<close>, where \<open>E\<close> stands for the en
  dash U+2013 of the source.
\<close>

definition entryRe :: re where
  "entryRe =
     seqs [Bol, lit ''- **'', Cap 1 (rplusLazy (Cls isDot)), lit ''**'', rplus space,
           chr CHR ''-'', rplus space, chr CHR ''*'',
           Cap 2 (rplus (Cls (\<lambda>c. c \<noteq> of_char CHR ''*''))), chr CHR ''*'',
           Rep True space,
           Rep True (Cls (\<lambda>c. c = of_char CHR '':'' \<or> c = of_char CHR ''-'' \<or> c = 8211)),
           Rep True space, Cap 3 (Rep True (Cls isDot)), Eol]"

text \<open>\<open>/^(\d{4}-\d{2}-\d{2})\s+(.+)$/\<close>\<close>

definition raceDateRe :: re where
  "raceDateRe = seqs [Bol, Cap 1 isoDate, rplus space, Cap 2 (rplus (Cls isDot)), Eol]"

text \<open>
  \<open>/priced(?:\s+at)?\s+([0-9]+(?:\.[0-9]+)?|n\/a)/i\<close>.  With the flag \<open>i\<close> a letter of the
  pattern matches its two ASCII cases (a code unit outside ASCII never canonicalizes to
  an ASCII letter).
\<close>

definition asciiUpper :: "jschar \<Rightarrow> jschar" where
  "asciiUpper c = (if 97 \<le> c \<and> c \<le> 122 then c - 32 else c)"

definition chrI :: "char \<Rightarrow> re" where
  "chrI c = Cls (\<lambda>x. asciiUpper x = asciiUpper (of_char c))"

fun litI :: "string \<Rightarrow> re" where
  "litI [] = Eps"
| "litI (c # cs) = Seq (chrI c) (litI cs)"

definition pricedRe :: re where
  "pricedRe =
     seqs [litI ''priced'', ropt (seqs [rplus space, litI ''at'']), rplus space,
           Cap 1 (Alt (seqs [rplus digit, ropt (seqs [chr CHR ''.'', rplus digit])])
                      (litI ''n/a''))]"

text \<open>\<open>/(\d{2}):(\d{2})/\<close>\<close>

definition timeRe :: re where
  "timeRe = seqs [Cap 1 (rtimes 2 digit), chr CHR '':'', Cap 2 (rtimes 2 digit)]"

text \<open>A capture that took part in the match (all captures read below do when the match succeeds).\<close>

definition group :: "(nat \<rightharpoonup> jsstring) \<Rightarrow> nat \<Rightarrow> jsstring" where
  "group c n = (case c n of None \<Rightarrow> [] | Some g \<Rightarrow> g)"

text \<open>\<open>rawLine.replace(/[\u2013\u2014]/g, "-")\<close>\<close>

definition normalizeDashes :: "jsstring \<Rightarrow> jsstring" where
  "normalizeDashes rawLine = map (\<lambda>c. if c = 8211 \<or> c = 8212 then 45 else c) rawLine"

record Horse =
  horse_name :: jsstring
  race :: jsstring
  horse_value :: jsstring
  horse_note :: jsstring
  date :: "jsstring option"

record ParseState =
  currentDate :: jsstring
  horses :: "Horse list"
  seen :: "jsstring set"

definition todayDate :: jsstring where
  "todayDate = js ''2026-02-10''"

text \<open>The date and the race text of an entry: the date inside the bold field wins over the heading.\<close>

definition effectiveDate :: "jsstring \<Rightarrow> jsstring \<Rightarrow> jsstring \<times> jsstring" where
  "effectiveDate current raceField =
     (case reMatch raceDateRe raceField of
        None \<Rightarrow> (current, raceField)
      | Some (i, j, c) \<Rightarrow> (group c 1, group c 2))"

text \<open>The part of the loop body after the entry pattern has matched.\<close>

definition addEntry :: "ParseState \<Rightarrow> jsstring \<Rightarrow> jsstring \<Rightarrow> jsstring \<Rightarrow> ParseState" where
  "addEntry st raceField nameField rest =
     (let (entryDate, raceText) = effectiveDate (currentDate st) raceField in
      if entryDate \<noteq> todayDate then st
      else (let key = trim nameField @ js ''|'' @ trim raceText @ js ''|'' @ entryDate in
        if key \<in> seen st then st
        else (let st' = st \<lparr> seen := insert key (seen st) \<rparr>;
                  v = (case reMatch pricedRe rest of None \<Rightarrow> js ''n/a'' | Some (i, j, c) \<Rightarrow> group c 1);
                  raceLabel = trim ((if entryDate \<noteq> [] then entryDate @ js '' '' else []) @ trim raceText)
              in if trim nameField = [] then st'
                 else st' \<lparr> horses := horses st' @
                        [\<lparr> horse_name = trim nameField, race = raceLabel, horse_value = v,
                           horse_note = trim rest,
                           date = (if entryDate = [] then None else Some entryDate) \<rparr>] \<rparr>)))"

text \<open>The body of the loop over the lines.\<close>

definition parseLine :: "ParseState \<Rightarrow> jsstring \<Rightarrow> ParseState" where
  "parseLine st rawLine =
     (case reMatch dateHeadingRe rawLine of
        Some (i, j, c) \<Rightarrow> st \<lparr> currentDate := group c 1 \<rparr>
      | None \<Rightarrow>
          (case reMatch entryRe (normalizeDashes rawLine) of
             None \<Rightarrow> st
           | Some (i, j, c) \<Rightarrow> addEntry st (group c 1) (group c 2) (group c 3)))"

text \<open>
  The sort key \<open>a.race.match(/(\d{2}):(\d{2})/)?.[0] || "00:00"\<close>, and
  \<open>horses.sort((a, b) => timeB.localeCompare(timeA))\<close>: a stable sort, descending in the
  key.  The keys are two digits, a colon and two digits, which \<open>localeCompare\<close> orders as
  their code units do; the stable ascending sort of the reversed list, reversed, is the
  stable descending sort.
\<close>

definition timeKey :: "Horse \<Rightarrow> jsstring" where
  "timeKey h =
     (case reMatch timeRe (race h) of
        None \<Rightarrow> js ''00:00''
      | Some (i, j, c) \<Rightarrow> take (j - i) (drop i (race h)))"

definition sortByTimeDesc :: "Horse list \<Rightarrow> Horse list" where
  "sortByTimeDesc hs = rev (sort_key timeKey (rev hs))"

definition parsedEntries :: "jsstring \<Rightarrow> Horse list" where
  "parsedEntries content =
     horses (foldl parseLine \<lparr> currentDate = [], horses = [], seen = {} \<rparr> (splitLines content))"

definition parseB2LHorses :: "jsstring \<Rightarrow> Horse list" where
  "parseB2LHorses content = take 2 (sortByTimeDesc (parsedEntries content))"

text \<open>The composite key of an output record.\<close>

definition hkey :: "Horse \<Rightarrow> jsstring \<times> jsstring \<times> jsstring option" where
  "hkey h = (horse_name h, race h, date h)"

text \<open>A string with no white space at either end.\<close>

definition trimmed :: "jsstring \<Rightarrow> bool" where
  "trimmed s \<longleftrightarrow> s = [] \<or> (\<not> isSpace (hd s) \<and> \<not> isSpace (last s))"

lemma trimmed_trim: "trimmed (trim s)"
proof (cases "dropWhile isSpace s")
  case Nil
  show ?thesis unfolding trim_def trimStart_def trimEnd_def Nil by (simp add: trimmed_def)
next
  case (Cons y ys)
  then have y: "\<not> isSpace y" using hd_dropWhile[of isSpace s] by auto
  have "dropWhile isSpace (rev (y # ys)) = dropWhile isSpace (rev ys) @ [y]"
    using y by (simp add: dropWhile_append3)
  then have t: "trim s = y # rev (dropWhile isSpace (rev ys))"
    by (simp add: trim_def trimStart_def trimEnd_def Cons)
  have ne: "dropWhile isSpace (rev (y # ys)) \<noteq> []"
    using \<open>dropWhile isSpace (rev (y # ys)) = dropWhile isSpace (rev ys) @ [y]\<close> by simp
  have "last (trim s) = hd (dropWhile isSpace (rev (y # ys)))"
    using ne by (simp add: trim_def trimStart_def trimEnd_def Cons last_rev)
  moreover have "\<not> isSpace (hd (dropWhile isSpace (rev (y # ys))))"
    using ne by (rule hd_dropWhile)
  ultimately show ?thesis using y by (simp add: trimmed_def t)
qed

lemma trimEnd_keep: "s \<noteq> [] \<Longrightarrow> \<not> isSpace (last s) \<Longrightarrow> trimEnd s = s"
proof -
  assume "s \<noteq> []" "\<not> isSpace (last s)"
  then have "dropWhile isSpace (rev s) = rev s"
    by (cases "rev s") (auto simp: last_rev hd_rev)
  then show ?thesis by (simp add: trimEnd_def)
qed

lemma today_facts:
  "todayDate \<noteq> []" "\<not> isSpace (hd todayDate)" "\<not> isSpace (last todayDate)"
  by (simp_all add: todayDate_def js_def isSpace_def)

lemma trimStart_today: "trimStart (todayDate @ s) = todayDate @ s"
  by (simp add: trimStart_def todayDate_def js_def isSpace_def)

lemma raceLabel_trimmed:
  assumes "trimmed rt"
  shows "trim ((todayDate @ js '' '') @ rt) = todayDate @ (if rt = [] then [] else js '' '' @ rt)"
proof (cases "rt = []")
  case True
  have "trimEnd (todayDate @ js '' '') = todayDate"
    by (simp add: trimEnd_def todayDate_def js_def isSpace_def)
  then show ?thesis using True trimStart_today[of "js '' ''"] by (simp add: trim_def)
next
  case False
  with assms have "\<not> isSpace (last rt)" by (simp add: trimmed_def)
  then have "trimEnd (todayDate @ js '' '' @ rt) = todayDate @ js '' '' @ rt"
    using False by (intro trimEnd_keep) simp_all
  then show ?thesis using False trimStart_today[of "js '' '' @ rt"] by (simp add: trim_def)
qed

lemma raceLabel_inj:
  assumes "trimmed a" "trimmed b"
    and "trim ((todayDate @ js '' '') @ a) = trim ((todayDate @ js '' '') @ b)"
  shows "a = b"
  using assms(3) unfolding raceLabel_trimmed[OF assms(1)] raceLabel_trimmed[OF assms(2)]
  by (simp split: if_splits)

text \<open>
  The invariant of the loop: the records pushed so far have distinct composite keys, and
  each is an entry of the target date whose key string is in \<open>seen\<close>.
\<close>

definition entryOf :: "jsstring set \<Rightarrow> Horse \<Rightarrow> bool" where
  "entryOf keys h \<longleftrightarrow>
     (\<exists>rt. trimmed rt \<and> race h = trim ((todayDate @ js '' '') @ rt) \<and> date h = Some todayDate
        \<and> horse_name h @ js ''|'' @ rt @ js ''|'' @ todayDate \<in> keys)"

definition parseInv :: "ParseState \<Rightarrow> bool" where
  "parseInv st \<longleftrightarrow> distinct (map hkey (horses st)) \<and> (\<forall>h \<in> set (horses st). entryOf (seen st) h)"

lemma entryOf_mono: "entryOf keys h \<Longrightarrow> entryOf (insert k keys) h"
  unfolding entryOf_def by blast

lemma entryOf_same_key:
  assumes "entryOf keys h" and "trimmed rt"
    and "hkey h = (nm, trim ((todayDate @ js '' '') @ rt), Some todayDate)"
  shows "nm @ js ''|'' @ rt @ js ''|'' @ todayDate \<in> keys"
proof -
  from assms(1) obtain rt' where rt': "trimmed rt'" "race h = trim ((todayDate @ js '' '') @ rt')"
    "horse_name h @ js ''|'' @ rt' @ js ''|'' @ todayDate \<in> keys"
    unfolding entryOf_def by blast
  from assms(3) have n: "horse_name h = nm" and r: "race h = trim ((todayDate @ js '' '') @ rt)"
    by (simp_all add: hkey_def)
  from rt'(2) r have "trim ((todayDate @ js '' '') @ rt') = trim ((todayDate @ js '' '') @ rt)"
    by (rule trans[OF sym])
  with rt'(1) assms(2) have "rt' = rt" by (rule raceLabel_inj)
  with rt'(3) n show ?thesis by (simp only:)
qed

lemma addEntry_cases:
  fixes st :: ParseState and raceField entryDate raceText nameField rest :: jsstring
  assumes "effectiveDate (currentDate st) raceField = (entryDate, raceText)"
  defines "key \<equiv> trim nameField @ js ''|'' @ trim raceText @ js ''|'' @ todayDate"
  shows "entryDate \<noteq> todayDate \<or> key \<in> seen st \<Longrightarrow> addEntry st raceField nameField rest = st"
    and "entryDate = todayDate \<Longrightarrow> key \<notin> seen st \<Longrightarrow> trim nameField = [] \<Longrightarrow>
           addEntry st raceField nameField rest = st \<lparr> seen := insert key (seen st) \<rparr>"
    and "entryDate = todayDate \<Longrightarrow> key \<notin> seen st \<Longrightarrow> trim nameField \<noteq> [] \<Longrightarrow>
           addEntry st raceField nameField rest
             = st \<lparr> seen := insert key (seen st),
                    horses := horses st @
                      [\<lparr> horse_name = trim nameField,
                         race = trim ((todayDate @ js '' '') @ trim raceText),
                         horse_value = (case reMatch pricedRe rest of None \<Rightarrow> js ''n/a''
                                        | Some (i, j, c) \<Rightarrow> group c 1),
                         horse_note = trim rest, date = Some todayDate \<rparr>] \<rparr>"
proof -
  show "entryDate \<noteq> todayDate \<or> key \<in> seen st \<Longrightarrow> addEntry st raceField nameField rest = st"
    unfolding addEntry_def assms(1) key_def by (auto simp: Let_def)
  show "entryDate = todayDate \<Longrightarrow> key \<notin> seen st \<Longrightarrow> trim nameField = [] \<Longrightarrow>
           addEntry st raceField nameField rest = st \<lparr> seen := insert key (seen st) \<rparr>"
    unfolding addEntry_def assms(1) key_def by (simp add: Let_def)
  show "entryDate = todayDate \<Longrightarrow> key \<notin> seen st \<Longrightarrow> trim nameField \<noteq> [] \<Longrightarrow>
           addEntry st raceField nameField rest
             = st \<lparr> seen := insert key (seen st),
                    horses := horses st @
                      [\<lparr> horse_name = trim nameField,
                         race = trim ((todayDate @ js '' '') @ trim raceText),
                         horse_value = (case reMatch pricedRe rest of None \<Rightarrow> js ''n/a''
                                        | Some (i, j, c) \<Rightarrow> group c 1),
                         horse_note = trim rest, date = Some todayDate \<rparr>] \<rparr>"
    unfolding addEntry_def assms(1) key_def using today_facts(1) by (simp add: Let_def)
qed

lemma parseInv_seen:
  "parseInv st \<Longrightarrow> parseInv (st \<lparr> seen := insert k (seen st) \<rparr>)"
  by (auto simp: parseInv_def intro: entryOf_mono)

lemma parseInv_currentDate [simp]: "parseInv (st \<lparr> currentDate := d \<rparr>) = parseInv st"
  by (simp add: parseInv_def)

lemma addEntry_inv:
  assumes "parseInv st"
  shows "parseInv (addEntry st raceField nameField rest)"
proof -
  obtain entryDate raceText where e: "effectiveDate (currentDate st) raceField = (entryDate, raceText)"
    by (cases "effectiveDate (currentDate st) raceField")
  let ?key = "trim nameField @ js ''|'' @ trim raceText @ js ''|'' @ todayDate"
  note c = addEntry_cases[OF e, of nameField rest]
  consider (skip) "entryDate \<noteq> todayDate \<or> ?key \<in> seen st"
    | (blank) "entryDate = todayDate" "?key \<notin> seen st" "trim nameField = []"
    | (push) "entryDate = todayDate" "?key \<notin> seen st" "trim nameField \<noteq> []"
    by blast
  then show ?thesis
  proof cases
    case skip
    then show ?thesis using assms c(1) by simp
  next
    case blank
    then show ?thesis using parseInv_seen[OF assms] c(2) by simp
  next
    case push
    let ?h = "\<lparr> horse_name = trim nameField, race = trim ((todayDate @ js '' '') @ trim raceText),
                horse_value = (case reMatch pricedRe rest of None \<Rightarrow> js ''n/a''
                               | Some (i, j, c) \<Rightarrow> group c 1),
                horse_note = trim rest, date = Some todayDate \<rparr>"
    have res: "addEntry st raceField nameField rest
        = st \<lparr> seen := insert ?key (seen st), horses := horses st @ [?h] \<rparr>"
      using c(3)[OF push] .
    have new: "entryOf (insert ?key (seen st)) ?h"
      unfolding entryOf_def by (rule exI[of _ "trim raceText"]) (simp add: trimmed_trim)
    have fresh: "hkey ?h \<notin> hkey ` set (horses st)"
    proof
      assume "hkey ?h \<in> hkey ` set (horses st)"
      then obtain h where h: "h \<in> set (horses st)" "hkey h = hkey ?h" by auto
      from assms h(1) have "entryOf (seen st) h" by (simp add: parseInv_def)
      from entryOf_same_key[OF this trimmed_trim[of raceText], of "trim nameField"] h(2)
      have "?key \<in> seen st" by (simp add: hkey_def)
      with push(2) show False by simp
    qed
    have old: "\<forall>h \<in> set (horses st). entryOf (insert ?key (seen st)) h"
      using assms by (auto simp: parseInv_def intro: entryOf_mono)
    have d: "distinct (map hkey (horses st))"
      using assms by (simp add: parseInv_def)
    show ?thesis
      unfolding res parseInv_def using new fresh old d by simp
  qed
qed

lemma parseLine_inv: "parseInv st \<Longrightarrow> parseInv (parseLine st rawLine)"
  by (simp add: parseLine_def addEntry_inv split: option.splits)

lemma foldl_parseLine_inv: "parseInv st \<Longrightarrow> parseInv (foldl parseLine st ls)"
  by (induction ls arbitrary: st) (simp_all add: parseLine_inv)

lemma parsedEntries_inv:
  "distinct (map hkey (parsedEntries content))"
  "h \<in> set (parsedEntries content) \<Longrightarrow> \<exists>keys. entryOf keys h"
  using foldl_parseLine_inv[of "\<lparr> currentDate = [], horses = [], seen = {} \<rparr>" "splitLines content"]
  by (auto simp: parsedEntries_def parseInv_def)

lemma rtimes_numeral: "rtimes (numeral k) r = Seq r (rtimes (pred_numeral k) r)"
  by (simp add: numeral_eq_Suc)

lemmas parse_eval = parseB2LHorses_def parsedEntries_def parseLine_def addEntry_def effectiveDate_def
  group_def normalizeDashes_def todayDate_def sortByTimeDesc_def timeKey_def
  dateHeadingRe_def entryRe_def raceDateRe_def pricedRe_def timeRe_def isoDate_def digit_def space_def
  chrI_def asciiUpper_def re_eval isDigit_def isSpace_def isDot_def
  trim_def trimStart_def trimEnd_def js_def Let_def rtimes_numeral


lemma set_sorted_window: "set (take n (sortByTimeDesc hs)) \<subseteq> set hs"
  using set_take_subset[of n "sortByTimeDesc hs"] by (simp add: sortByTimeDesc_def)




















































lemma entryOf_race:
  assumes "entryOf keys h"
  shows "date h = Some todayDate
    \<and> (race h = todayDate \<or> (\<exists>rt. rt \<noteq> [] \<and> trimmed rt \<and> race h = todayDate @ js '' '' @ rt))"
proof -
  from assms obtain rt where rt: "trimmed rt" "race h = trim ((todayDate @ js '' '') @ rt)"
    "date h = Some todayDate"
    unfolding entryOf_def by blast
  show ?thesis
  proof (cases "rt = []")
    case True
    have "race h = todayDate"
      unfolding rt(2) raceLabel_trimmed[OF rt(1)] using True by simp
    then show ?thesis using rt by simp
  next
    case False
    have "race h = todayDate @ js '' '' @ rt"
      unfolding rt(2) raceLabel_trimmed[OF rt(1)] using False by simp
    with False rt show ?thesis by blast
  qed
qed

text \<open>
  C10 (as amended).  Every record returned by the parser has the target date as its date,
  and a race field that begins with the target date: the date alone when the race text is
  blank, and otherwise the date, a space and the trimmed race text.
\<close>

theorem C10_race_starts_with_date:
  "\<forall>h \<in> set (parseB2LHorses content).
      date h = Some todayDate
    \<and> startsWith (race h) todayDate
    \<and> (race h = todayDate \<or> (\<exists>rt. rt \<noteq> [] \<and> trimmed rt \<and> race h = todayDate @ js '' '' @ rt))"
proof
  fix h assume "h \<in> set (parseB2LHorses content)"
  then have "h \<in> set (parsedEntries content)"
    using set_sorted_window by (auto simp: parseB2LHorses_def)
  then obtain keys where "entryOf keys h" using parsedEntries_inv(2) by blast
  from entryOf_race[OF this]
  show "date h = Some todayDate
    \<and> startsWith (race h) todayDate
    \<and> (race h = todayDate \<or> (\<exists>rt. rt \<noteq> [] \<and> trimmed rt \<and> race h = todayDate @ js '' '' @ rt))"
    by (auto simp: startsWith_def)
qed

text \<open>
  A report of six lines: a heading, an entry with an en dash, an entry with an upper-case
  price label, an entry of another day, a repeated entry and a later entry.  The entry of
  the other day and the repeated one are dropped, the later races come first, and two
  records are kept.
\<close>

lemma parse_sample:
  "parseB2LHorses
     (js ''## 2026-02-10'' @ [10]
      @ js ''- **14:30 Ascot** '' @ [8211] @ js '' *Red Rum*: priced at 3.5 ok'' @ [13, 10]
      @ js ''- **15:10 York** - *Arkle* PRICED n/a'' @ [10]
      @ js ''- **2026-02-09 16:00 Bath** - *Old* priced 9'' @ [10]
      @ js ''- **14:30 Ascot** - *Red Rum * dup'' @ [10]
      @ js ''- **2026-02-10 17:00 Ayr** - *Late* x'')
   = [\<lparr> horse_name = js ''Late'', race = js ''2026-02-10 17:00 Ayr'', horse_value = js ''n/a'',
         horse_note = js ''x'', date = Some (js ''2026-02-10'') \<rparr>,
      \<lparr> horse_name = js ''Arkle'', race = js ''2026-02-10 15:10 York'', horse_value = js ''n/a'',
         horse_note = js ''PRICED n/a'', date = Some (js ''2026-02-10'') \<rparr>]"
  by (simp add: parse_eval)

text \<open>The records of the two sample entries below.\<close>

definition horseBlankRace :: Horse where
  "horseBlankRace = \<lparr> horse_name = js ''Red Rum'', race = js ''2026-02-10'', horse_value = js ''3.0'',
        horse_note = js ''priced 3.0'', date = Some (js ''2026-02-10'') \<rparr>"

text \<open>
  C10 as stated fails: for a bold field that holds the date and white space only, the race
  label is the date with no space after it.
\<close>

theorem C10_counterexample:
  "parseB2LHorses (js ''- **2026-02-10  ** - *Red Rum* priced 3.0'') = [horseBlankRace]
   \<and> \<not> startsWith (race horseBlankRace) (js ''2026-02-10 '')"
  by (simp add: parse_eval horseBlankRace_def startsWith_def)

definition horseAscot :: Horse where
  "horseAscot = \<lparr> horse_name = js ''Red Rum'', race = js ''2026-02-10 14:30 Ascot'', horse_value = js ''3.0'',
        horse_note = js ''priced 3.0'', date = Some (js ''2026-02-10'') \<rparr>"

lemma parse_Ascot: "parseB2LHorses (js ''- **2026-02-10 14:30 Ascot** - *Red Rum* priced 3.0'') = [horseAscot]"
  by (simp add: parse_eval horseAscot_def)

theorem C10_race_starts_with_date_witness:
  "horseAscot \<in> set (parseB2LHorses (js ''- **2026-02-10 14:30 Ascot** - *Red Rum* priced 3.0''))
   \<and> date horseAscot = Some todayDate
   \<and> startsWith (race horseAscot) todayDate
   \<and> race horseAscot = todayDate @ js '' '' @ js ''14:30 Ascot''"
proof -
  have m: "horseAscot \<in> set (parseB2LHorses (js ''- **2026-02-10 14:30 Ascot** - *Red Rum* priced 3.0''))"
    by (simp add: parse_Ascot)
  from C10_race_starts_with_date[of "js ''- **2026-02-10 14:30 Ascot** - *Red Rum* priced 3.0''"] m
  have "date horseAscot = Some todayDate \<and> startsWith (race horseAscot) todayDate" by blast
  moreover have "race horseAscot = todayDate @ js '' '' @ js ''14:30 Ascot''"
    by (simp add: horseAscot_def todayDate_def js_def)
  ultimately show ?thesis using m by simp
qed

section \<open>External Source Adapters\<close>

text \<open>\<open>try { body } catch (error) { handler }\<close>\<close>

definition tryCatch :: "exn + 'a \<Rightarrow> (exn \<Rightarrow> exn + 'a) \<Rightarrow> exn + 'a" where
  "tryCatch body handler = (case body of Inl e \<Rightarrow> handler e | Inr x \<Rightarrow> Inr x)"

subsection \<open>The CLI adapter of the route\<close>

text \<open>\<open>trimmed.search(/[\[{]/)\<close>: the index of the first bracket or brace.\<close>

definition openBracketRe :: re where
  "openBracketRe = Cls (\<lambda>c. c = 91 \<or> c = 123)"

definition searchOpenBracket :: "jsstring \<Rightarrow> nat option" where
  "searchOpenBracket s = (case reMatch openBracketRe s of None \<Rightarrow> None | Some (i, j, c) \<Rightarrow> Some i)"

text \<open>
  \<open>runOpenClawJson\<close>.  \<open>execFile\<close> is the outcome of \<open>execFileAsync\<close> (it throws when the
  binary is missing, exits with a non-zero code or runs into the timeout, and gives the
  standard output otherwise); \<open>jsonParse\<close> is \<open>JSON.parse\<close>, read at the type the caller
  casts its result to.  The path of the binary is a constant, so the guard on it never
  fires.
\<close>

definition runOpenClawJson :: "(jsstring \<Rightarrow> exn + 'j) \<Rightarrow> exn + jsstring \<Rightarrow> exn + 'j option" where
  "runOpenClawJson jsonParse execFile =
     tryCatch
       (andThen execFile (\<lambda>stdout.
          (let trimmed = trim stdout in
           case searchOpenBracket trimmed of
             None \<Rightarrow> Inr None
           | Some start \<Rightarrow>
               tryCatch (andThen (jsonParse (drop start trimmed)) (\<lambda>v. Inr (Some v)))
                 (\<lambda>error. Inr None))))
       (\<lambda>error. Inr None)"

subsection \<open>The CLI adapter of the generator script\<close>

record ScanState =
  jsonStr :: jsstring
  inJson :: bool
  depth :: int

text \<open>The inner loop \<open>for (const char of line)\<close> of \<open>runCommand\<close>.\<close>

definition countBrackets :: "int \<Rightarrow> jsstring \<Rightarrow> int" where
  "countBrackets d line =
     foldl (\<lambda>d char.
              (let d1 = (if char = 91 \<or> char = 123 then d + 1 else d)
               in if char = 93 \<or> char = 125 then d1 - 1 else d1)) d line"

text \<open>The loop over the lines, which \<open>break\<close> leaves once the depth is back to zero.\<close>

fun scanLines :: "ScanState \<Rightarrow> jsstring list \<Rightarrow> ScanState" where
  "scanLines st [] = st"
| "scanLines st (line # rest) =
     (if inJson st \<or> startsWith (trim line) (js ''['') \<or> startsWith (trim line) (js ''{'')
      then (let st' = \<lparr> jsonStr = jsonStr st @ line @ [10], inJson = True,
                         depth = countBrackets (depth st) line \<rparr>
            in if depth st' = 0 \<and> trim (jsonStr st') \<noteq> [] then st' else scanLines st' rest)
      else scanLines st rest)"

definition runCommand :: "(jsstring \<Rightarrow> exn + 'j) \<Rightarrow> exn + jsstring \<Rightarrow> exn + 'j option" where
  "runCommand jsonParse execSync =
     tryCatch
       (andThen execSync (\<lambda>output.
          (let st = scanLines \<lparr> jsonStr = [], inJson = False, depth = 0 \<rparr> (split 10 (trim output))
           in if trim (jsonStr st) = [] then Inr None
              else andThen (jsonParse (jsonStr st)) (\<lambda>v. Inr (Some v)))))
       (\<lambda>error. Inr None)"

text \<open>
  The extraction policy in the words of the specification: from the first bracket or
  brace, follow the nesting depth until it is back to zero; the balanced substring ends
  there.
\<close>

fun specScanBalanced :: "int \<Rightarrow> jsstring \<Rightarrow> jsstring option" where
  "specScanBalanced d [] = None"
| "specScanBalanced d (c # cs) =
     (let d' = countBrackets d [c]
      in if d' = 0 then Some [c] else map_option ((#) c) (specScanBalanced d' cs))"

definition specBalancedJson :: "jsstring \<Rightarrow> jsstring option" where
  "specBalancedJson s =
     (case searchOpenBracket s of None \<Rightarrow> None | Some start \<Rightarrow> specScanBalanced 0 (drop start s))"

text \<open>What a caller gets for the text handed to the parser.\<close>

definition parsed :: "(jsstring \<Rightarrow> exn + 'j) \<Rightarrow> jsstring \<Rightarrow> exn + 'j option" where
  "parsed jsonParse text = (case jsonParse text of Inl e \<Rightarrow> Inr None | Inr v \<Rightarrow> Inr (Some v))"

text \<open>An output of the CLI with a line of noise after the JSON value.\<close>

definition balancedPart :: jsstring where
  \<open>balancedPart = js ''{"agents":[]}''\<close>

definition noisyOutput :: jsstring where
  "noisyOutput = balancedPart @ [10] @ js ''Done in 12ms''"

subsection \<open>Agents and cron jobs\<close>

text \<open>
  \<open>getDefinedSubAgentsList\<close>: the names of the directories of the agents folder, sorted by
  code units; \<open>readdir\<close> is the outcome of \<open>fs.readdir\<close>, each entry with its \<open>isDirectory()\<close>.
\<close>

definition getDefinedSubAgentsList :: "exn + (jsstring \<times> bool) list \<Rightarrow> jsstring list" where
  "getDefinedSubAgentsList readdir =
     sort (case readdir of Inl error \<Rightarrow> [] | Inr entries \<Rightarrow> map fst (filter snd entries))"

definition fetchAgentData ::
  "(jschar \<Rightarrow> jsstring) \<Rightarrow> (jsstring \<Rightarrow> exn + OpenClawAgent payload) \<Rightarrow> exn + jsstring \<Rightarrow>
     (jsstring \<Rightarrow> exn + OpenClawSession payload) \<Rightarrow> exn + jsstring \<Rightarrow>
     exn + (jsstring \<times> bool) list \<Rightarrow> exn + AgentRecord list option" where
  "fetchAgentData uc parseAgents execAgents parseSessions execSessions readdir =
     andThen (runOpenClawJson parseAgents execAgents) (\<lambda>agentsJson.
     andThen (runOpenClawJson parseSessions execSessions) (\<lambda>sessionsJson.
       Inr (reconcileAgents uc agentsJson sessionsJson (getDefinedSubAgentsList readdir))))"

definition fetchCronStatus ::
  "(jsstring \<Rightarrow> exn + OpenClawJob payload) \<Rightarrow> exn + jsstring \<Rightarrow> exn + Crons option" where
  "fetchCronStatus parseCron execCron = andThen (runOpenClawJson parseCron execCron) cronStatus"

subsection \<open>Issue tracker\<close>

text \<open>
  The part of the GraphQL response that \<open>fetchGitHubProjects\<close> reads: per item the name of
  its status field and, of its content, the number, the title, the repository's
  \<open>nameWithOwner\<close> and \<open>updatedAt\<close>, every one of them optional.  \<open>gql_errors\<close> says whether
  the response has a truthy \<open>errors\<close>; \<open>gql_project\<close> is \<open>data?.user?.projectV2\<close> and \<open>nodes\<close>
  its \<open>items.nodes\<close> (\<open>None\<close> when the path is missing, where reading \<open>length\<close> throws).
\<close>

record ItemContent =
  content_number :: "nat option"
  content_title :: "jsstring option"
  content_nameWithOwner :: "jsstring option"
  content_updatedAt :: "jsstring option"

record ProjectItem =
  item_statusName :: "jsstring option"
  item_content :: "ItemContent option"

record ProjectV2 =
  nodes :: "ProjectItem list option"

record GraphqlData =
  gql_errors :: bool
  gql_project :: "ProjectV2 option"

record GitHubResponse =
  resp_ok :: bool
  resp_text :: "exn + jsstring"
  resp_json :: "exn + GraphqlData"

record ActiveProject =
  ap_name :: jsstring
  ap_status :: jsstring
  ap_owner :: jsstring

record Activity =
  act_type :: jsstring
  act_label :: jsstring
  act_detail :: jsstring
  act_timestamp :: jsstring
  act_source :: jsstring

record Projects =
  projects_status :: jsstring
  active :: "ActiveProject list"
  recentActivity :: "Activity list"
  activityLog :: "jsstring list"

definition unavailableProjects :: Projects where
  "unavailableProjects =
     \<lparr> projects_status = js ''unavailable'', active = [], recentActivity = [], activityLog = [] \<rparr>"

text \<open>
  \<open>s.toLowerCase()\<close>, the ASCII range written out and the Unicode table for the other
  code units the parameter \<open>lc\<close>.
\<close>

definition toLowerCase :: "(jschar \<Rightarrow> jsstring) \<Rightarrow> jsstring \<Rightarrow> jsstring" where
  "toLowerCase lc s =
     concat (map (\<lambda>c. if 65 \<le> c \<and> c \<le> 90 then [c + 32] else if c < 128 then [c] else lc c) s)"

definition isInProgress :: "(jschar \<Rightarrow> jsstring) \<Rightarrow> ProjectItem \<Rightarrow> bool" where
  "isInProgress lc item =
     (let statusValue = orElse (map_option (toLowerCase lc) (item_statusName item)) []
      in statusValue = js ''in progress'' \<or> statusValue = js ''in_progress'')"

text \<open>
  The label \<open>`${item.repo} #${item.number}: ${item.title}`\<close> of an item and its time;
  \<open>now\<close> is the clock read by \<open>new Date()\<close>.
\<close>

definition itemLabel :: "ItemContent option \<Rightarrow> jsstring" where
  "itemLabel content =
     (let repoName =
            orElse (case Option.bind content content_nameWithOwner of
                      None \<Rightarrow> None
                    | Some full \<Rightarrow> (case split 47 full of _ # repo # _ \<Rightarrow> Some repo | _ \<Rightarrow> None))
              (js ''unknown'');
          number =
            (case Option.bind content content_number of
               None \<Rightarrow> js ''?''
             | Some n \<Rightarrow> if n = 0 then js ''?'' else showNat n);
          title = orElse (Option.bind content content_title) (js ''Untitled'')
      in repoName @ js '' #'' @ number @ js '': '' @ title)"

definition itemUpdatedAt :: "int \<Rightarrow> ItemContent option \<Rightarrow> jsstring" where
  "itemUpdatedAt now content = orElse (Option.bind content content_updatedAt) (toISOString now)"

definition projectsOf :: "(jschar \<Rightarrow> jsstring) \<Rightarrow> int \<Rightarrow> ProjectItem list \<Rightarrow> Projects" where
  "projectsOf lc now itemNodes =
     (let inProgressItems = map item_content (filter (isInProgress lc) itemNodes) in
      if inProgressItems = []
      then \<lparr> projects_status = js ''available'', active = [], recentActivity = [], activityLog = [] \<rparr>
      else \<lparr> projects_status = js ''available'',
             active = map (\<lambda>c. \<lparr> ap_name = itemLabel c, ap_status = js ''In Progress'',
                                  ap_owner = js ''GitHub'' \<rparr>) inProgressItems,
             recentActivity =
               map (\<lambda>c. \<lparr> act_type = js ''github'', act_label = itemLabel c,
                            act_detail = js ''In Progress'', act_timestamp = itemUpdatedAt now c,
                            act_source = js ''Clawd Tasks Board'' \<rparr>) inProgressItems,
             activityLog = map itemLabel inProgressItems \<rparr>)"

text \<open>
  \<open>fetchGitHubProjects\<close>: \<open>token\<close> is the environment variable, \<open>fetched\<close> the outcome of
  \<open>fetch\<close> (it throws on a transport error and on the timeout).
\<close>

definition fetchGitHubProjects ::
  "(jschar \<Rightarrow> jsstring) \<Rightarrow> int \<Rightarrow> jsstring option \<Rightarrow> exn + GitHubResponse \<Rightarrow> exn + Projects option" where
  "fetchGitHubProjects lc now token fetched =
     (if orElse token [] = [] then Inr (Some unavailableProjects)
      else tryCatch
        (andThen fetched (\<lambda>response.
           if \<not> resp_ok response
           then andThen (resp_text response) (\<lambda>errorBody. Inr (Some unavailableProjects))
           else andThen (resp_json response) (\<lambda>graphqlData.
             if gql_errors graphqlData then Inr (Some unavailableProjects)
             else (case gql_project graphqlData of
                     None \<Rightarrow> Inr (Some unavailableProjects)
                   | Some projectV2 \<Rightarrow>
                       (case nodes projectV2 of
                          None \<Rightarrow> Inl TypeError
                        | Some itemNodes \<Rightarrow> Inr (Some (projectsOf lc now itemNodes)))))))
        (\<lambda>error. Inr (Some unavailableProjects)))"

subsection \<open>Report file\<close>

record QualifiedHorse =
  q_name :: jsstring
  q_race :: jsstring
  q_value :: jsstring
  q_note :: jsstring

record TradingStatus =
  dailyStatus :: jsstring
  statusNote :: jsstring
  completionStatus :: jsstring

record TradingStats =
  matchedRaces :: nat
  unmatched :: nat
  profit :: int
  liability :: int

record PipelineStage =
  stage_name :: jsstring
  stage_label :: jsstring
  completed :: bool
  stage_note :: jsstring

record Trading =
  availability :: jsstring
  trading_status :: TradingStatus
  qualifiedHorses :: "QualifiedHorse list"
  tradingStats :: TradingStats
  pipelineStages :: "PipelineStage list"

text \<open>The object \<open>fetchB2LData\<close> builds from the parsed horses (U+2713 and U+23F3 are its two signs).\<close>

definition tradingOf :: "Horse list \<Rightarrow> Trading" where
  "tradingOf hs =
     (let qualified = map (\<lambda>h. \<lparr> q_name = horse_name h, q_race = race h, q_value = horse_value h,
                                   q_note = horse_note h \<rparr>) (take 6 hs);
          n = length qualified
      in \<lparr> availability = (if n > 0 then js ''available'' else js ''unavailable''),
           trading_status =
             \<lparr> dailyStatus = (if n > 4 then js ''Green'' else if n > 0 then js ''Amber'' else js ''Red''),
               statusNote =
                 (if n > 0 then showNat n @ js '' horses extracted from B2L file''
                  else js ''Waiting for the Back-to-Lay pipeline to output qualified runners''),
               completionStatus =
                 (if n > 0 then js ''On track for processing'' else js ''Awaiting shortlist'') \<rparr>,
           qualifiedHorses = qualified,
           tradingStats = \<lparr> matchedRaces = n, unmatched = 10 - n, profit = 0, liability = 0 \<rparr>,
           pipelineStages =
             [\<lparr> stage_name = js ''Racecard'', stage_label = js ''Racecard imported from Betfair Guru'',
                completed = True, stage_note = js ''CSV downloaded'' \<rparr>,
              \<lparr> stage_name = js ''Analysis'',
                stage_label = js ''Winning Warlock analysis (75%+ shortlist)'',
                completed = True, stage_note = js ''Shortlist reviewed'' \<rparr>,
              \<lparr> stage_name = js ''Bias'', stage_label = js ''Draw bias captured'',
                completed = True, stage_note = js ''Draw & pace metrics recorded'' \<rparr>,
              \<lparr> stage_name = js ''Sheet'',
                stage_label = js ''Qualified horses appended to ClawdBotB2L sheet'',
                completed = (n > 0),
                stage_note =
                  (if n > 0 then [10003, 32] @ showNat n @ js '' appended''
                   else [9203] @ js '' waiting for horses'') \<rparr>] \<rparr>)"

text \<open>
  \<open>fetchB2LData\<close>: \<open>access\<close> and \<open>readFile\<close> are the outcomes of \<open>fs.access\<close> and
  \<open>fs.readFile\<close> on the report of the period.
\<close>

definition fetchB2LData :: "exn + unit \<Rightarrow> exn + jsstring \<Rightarrow> exn + Trading option" where
  "fetchB2LData access readFile =
     (case access of
        Inl error \<Rightarrow> Inr None
      | Inr _ \<Rightarrow>
          tryCatch (andThen readFile (\<lambda>content. Inr (Some (tradingOf (parseB2LHorses content)))))
            (\<lambda>error. Inr None))"

section \<open>Snapshot Assembler\<close>

text \<open>
  The snapshot: the four sections the route fills, and the other sections of the
  placeholder file (calendar, content, file activity), which it never touches.
\<close>

record 'o DashboardData =
  agents :: "AgentRecord list"
  projects :: Projects
  crons :: Crons
  trading :: Trading
  otherSections :: 'o

text \<open>The four replace-or-keep steps of \<open>buildLiveData\<close>, on the copy of the placeholder.\<close>

definition applyLive ::
  "'o DashboardData \<Rightarrow> AgentRecord list option \<Rightarrow> Projects option \<Rightarrow> Crons option \<Rightarrow>
     Trading option \<Rightarrow> 'o DashboardData" where
  "applyLive snapshot agentsR projectsR cronsR tradingR =
     (let s1 = (case agentsR of
                  Some a \<Rightarrow> if length a > 0 then snapshot \<lparr> agents := a \<rparr> else snapshot
                | None \<Rightarrow> snapshot);
          s2 = (case projectsR of
                  Some p \<Rightarrow> if length (active p) > 0 then s1 \<lparr> projects := p \<rparr> else s1
                | None \<Rightarrow> s1);
          s3 = (case cronsR of
                  Some c \<Rightarrow> if length (jobs c) > 0 then s2 \<lparr> crons := c \<rparr> else s2
                | None \<Rightarrow> s2)
      in (case tradingR of Some t \<Rightarrow> s3 \<lparr> trading := t \<rparr> | None \<Rightarrow> s3))"

text \<open>
  Everything a request reads from outside: the placeholder, the outcomes of the three CLI
  calls and of \<open>JSON.parse\<close> on their outputs, the agents folder, the token and the
  response of the issue tracker, the report file, the clock and the two case tables.
\<close>

record 'o World =
  placeholderData :: "'o DashboardData"
  execAgents :: "exn + jsstring"
  parseAgents :: "jsstring \<Rightarrow> exn + OpenClawAgent payload"
  execSessions :: "exn + jsstring"
  parseSessions :: "jsstring \<Rightarrow> exn + OpenClawSession payload"
  execCron :: "exn + jsstring"
  parseCron :: "jsstring \<Rightarrow> exn + OpenClawJob payload"
  readdirAgents :: "exn + (jsstring \<times> bool) list"
  githubToken :: "jsstring option"
  githubFetch :: "exn + GitHubResponse"
  b2lAccess :: "exn + unit"
  b2lReadFile :: "exn + jsstring"
  clock :: int
  upperCase :: "jschar \<Rightarrow> jsstring"
  lowerCase :: "jschar \<Rightarrow> jsstring"

text \<open>
  \<open>buildLiveData\<close>: \<open>Promise.all\<close> over the four adapters rejects when one of them does, and
  the snapshot is assembled from the four results otherwise.
\<close>

definition buildLiveData :: "'o World \<Rightarrow> exn + 'o DashboardData" where
  "buildLiveData w =
     andThen (fetchAgentData (upperCase w) (parseAgents w) (execAgents w) (parseSessions w)
                (execSessions w) (readdirAgents w)) (\<lambda>agentsR.
     andThen (fetchGitHubProjects (lowerCase w) (clock w) (githubToken w) (githubFetch w)) (\<lambda>projectsR.
     andThen (fetchCronStatus (parseCron w) (execCron w)) (\<lambda>cronsR.
     andThen (fetchB2LData (b2lAccess w) (b2lReadFile w)) (\<lambda>tradingR.
       Inr (applyLive (placeholderData w) agentsR projectsR cronsR tradingR)))))"

record 'o HttpResponse =
  http_status :: nat
  body :: "'o DashboardData"

text \<open>The handler \<open>GET\<close> of the route.\<close>

definition GET :: "'o World \<Rightarrow> 'o HttpResponse" where
  "GET w =
     (case buildLiveData w of
        Inr data \<Rightarrow> \<lparr> http_status = 200, body = data \<rparr>
      | Inl error \<Rightarrow> \<lparr> http_status = 200, body = placeholderData w \<rparr>)"

subsection \<open>Extraction on a noisy output\<close>

lemma trim_noisy: "trim noisyOutput = noisyOutput"
  by (simp add: noisyOutput_def balancedPart_def trim_def trimStart_def trimEnd_def isSpace_def js_def)

lemma search_noisy: "searchOpenBracket noisyOutput = Some 0"
  by (simp add: searchOpenBracket_def openBracketRe_def re_eval noisyOutput_def balancedPart_def js_def)

lemma split_noisy: "split 10 noisyOutput = [balancedPart, js ''Done in 12ms'']"
  by (simp add: noisyOutput_def balancedPart_def js_def)

lemma scan_noisy:
  "scanLines \<lparr> jsonStr = [], inJson = False, depth = 0 \<rparr> [balancedPart, js ''Done in 12ms'']
     = \<lparr> jsonStr = balancedPart @ [10], inJson = True, depth = 0 \<rparr>"
  by (simp add: balancedPart_def js_def startsWith_def countBrackets_def
      trim_def trimStart_def trimEnd_def isSpace_def)

lemma trim_balanced: "trim (balancedPart @ [10]) \<noteq> []"
  by (simp add: balancedPart_def js_def trim_def trimStart_def trimEnd_def isSpace_def)

lemma spec_noisy: "specBalancedJson noisyOutput = Some balancedPart"
  by (simp add: specBalancedJson_def search_noisy)
    (simp add: noisyOutput_def balancedPart_def js_def countBrackets_def)

text \<open>
  C3.  On an output whose JSON value is followed by a line of noise the two adapters part:
  the generator's \<open>runCommand\<close> stops where the depth is back to zero and parses the
  balanced lines, as the extraction policy says, while \<open>runOpenClawJson\<close> of the route
  follows no depth and parses everything from the first brace to the end of the output,
  noise included.
\<close>

theorem C3_trailing_noise_reaches_parser:
  "specBalancedJson noisyOutput = Some balancedPart
   \<and> runCommand jsonParse (Inr noisyOutput) = parsed jsonParse (balancedPart @ [10])
   \<and> runOpenClawJson jsonParse (Inr noisyOutput) = parsed jsonParse noisyOutput"
proof -
  have "runCommand jsonParse (Inr noisyOutput) = parsed jsonParse (balancedPart @ [10])"
    unfolding runCommand_def andThen_def
    by (simp only: sum.case trim_noisy split_noisy scan_noisy Let_def ScanState.simps)
      (simp add: trim_balanced tryCatch_def parsed_def split: sum.splits)
  moreover
  have "runOpenClawJson jsonParse (Inr noisyOutput) = parsed jsonParse noisyOutput"
    by (simp add: runOpenClawJson_def trim_noisy search_noisy andThen_def tryCatch_def parsed_def
        split: sum.splits)
  ultimately show ?thesis by (simp add: spec_noisy)
qed

subsection \<open>Failures of the sources\<close>

lemma runOpenClawJson_total: "\<exists>r. runOpenClawJson jsonParse execFile = Inr r"
  by (auto simp: runOpenClawJson_def tryCatch_def andThen_def Let_def split: sum.splits option.splits)

lemma runOpenClawJson_exec_failed: "runOpenClawJson jsonParse (Inl e) = Inr None"
  by (simp add: runOpenClawJson_def tryCatch_def andThen_def)

lemma runOpenClawJson_no_bracket:
  "searchOpenBracket (trim stdout) = None \<Longrightarrow> runOpenClawJson jsonParse (Inr stdout) = Inr None"
  by (simp add: runOpenClawJson_def tryCatch_def andThen_def)

lemma runOpenClawJson_parse_failed:
  "searchOpenBracket (trim stdout) = Some start \<Longrightarrow> jsonParse (drop start (trim stdout)) = Inl e \<Longrightarrow>
     runOpenClawJson jsonParse (Inr stdout) = Inr None"
  by (simp add: runOpenClawJson_def tryCatch_def andThen_def)

lemma fetchAgentData_null:
  "runOpenClawJson pA eA = Inr None \<Longrightarrow>
     fetchAgentData uc pA eA pS eS rd = Inr None"
  using runOpenClawJson_total[of pS eS]
  by (auto simp: fetchAgentData_def andThen_def reconcileAgents_def)

lemma primaryRecord_no_sessions:
  "primaryRecord [] a
     = \<lparr> name = orElse (agent_identityName a) (orElse (agent_id a) (js ''Unknown'')),
         state = js ''Idle'', sessions = 0, tokens = 0, cost = 0,
         model = orElse (agent_model a) defaultModel, tasks = [] \<rparr>"
  by (simp add: primaryRecord_def costOf_0)

lemma fetchAgentData_no_agents:
  "runOpenClawJson pA eA = Inr (Some p) \<Longrightarrow> extractAgents p = [] \<Longrightarrow>
     fetchAgentData uc pA eA pS eS rd = Inr None"
  using runOpenClawJson_total[of pS eS]
  by (auto simp: fetchAgentData_def andThen_def reconcileAgents_def)

lemma fetchAgentData_sessions_failed:
  "runOpenClawJson pA eA = Inr (Some p) \<Longrightarrow> extractAgents p \<noteq> [] \<Longrightarrow>
   runOpenClawJson pS eS = Inr None \<Longrightarrow>
     fetchAgentData uc pA eA pS eS rd
       = Inr (Some (map (primaryRecord []) (extractAgents p)
                      @ map (\<lambda>f. idleRecord (displayName uc f)) (getDefinedSubAgentsList rd)))"
  by (simp add: fetchAgentData_def andThen_def reconcileAgents_def extractSessions_def
      subagentRecords_def discoverSubagents_def idle_all Let_def)

lemma getDefinedSubAgentsList_failed: "getDefinedSubAgentsList (Inl e) = []"
  by (simp add: getDefinedSubAgentsList_def)

lemma fetchAgentData_total:
  "\<exists>r. fetchAgentData uc pA eA pS eS rd = Inr r"
  using runOpenClawJson_total[of pS eS]
    runOpenClawJson_total[of pA eA]
  by (auto simp: fetchAgentData_def andThen_def)

lemma fetchCronStatus_null:
  "runOpenClawJson pC eC = Inr None \<Longrightarrow> fetchCronStatus pC eC = Inr None"
  by (simp add: fetchCronStatus_def andThen_def cronStatus_def)

lemma fetchB2LData_total: "\<exists>r. fetchB2LData access readFile = Inr r"
  by (auto simp: fetchB2LData_def tryCatch_def andThen_def split: sum.splits)

lemma fetchB2LData_null:
  "fetchB2LData (Inl e) readFile = Inr None" "fetchB2LData access (Inl e) = Inr None"
  by (simp_all add: fetchB2LData_def tryCatch_def andThen_def split: sum.splits)

lemma fetchGitHubProjects_total: "\<exists>p. fetchGitHubProjects lc now token fetched = Inr (Some p)"
  by (auto simp: fetchGitHubProjects_def tryCatch_def andThen_def split: sum.splits option.splits)

lemma fetchGitHubProjects_unavailable:
  "orElse token [] = [] \<Longrightarrow> fetchGitHubProjects lc now token fetched = Inr (Some unavailableProjects)"
  "fetchGitHubProjects lc now token (Inl e) = Inr (Some unavailableProjects)"
  "\<not> resp_ok response \<Longrightarrow>
     fetchGitHubProjects lc now token (Inr response) = Inr (Some unavailableProjects)"
  "resp_json response = Inl e \<Longrightarrow>
     fetchGitHubProjects lc now token (Inr response) = Inr (Some unavailableProjects)"
  "resp_json response = Inr graphqlData \<Longrightarrow> gql_errors graphqlData \<Longrightarrow>
     fetchGitHubProjects lc now token (Inr response) = Inr (Some unavailableProjects)"
  by (auto simp: fetchGitHubProjects_def tryCatch_def andThen_def split: sum.splits option.splits)

section \<open>Sample requests\<close>

text \<open>
  A placeholder, and four worlds: one where every source fails, one where only the report
  file is there and is empty, one whose cron job has a time beyond the range of dates,
  and one whose CLI gives the agent and the session of the scenario.
\<close>

definition samplePlaceholder :: "unit DashboardData" where
  "samplePlaceholder =
     \<lparr> agents = [idleRecord (js ''Placeholder agent'')],
       projects = unavailableProjects,
       crons = \<lparr> crons_status = js ''unavailable'', jobs = [] \<rparr>,
       trading =
         \<lparr> availability = js ''unavailable'',
           trading_status = \<lparr> dailyStatus = js ''Unknown'',
                              statusNote = js ''Trading data currently unavailable'',
                              completionStatus = js ''Unknown'' \<rparr>,
           qualifiedHorses = [],
           tradingStats = \<lparr> matchedRaces = 0, unmatched = 0, profit = 0, liability = 0 \<rparr>,
           pipelineStages = [] \<rparr>,
       otherSections = () \<rparr>"

definition quietWorld :: "unit World" where
  "quietWorld =
     \<lparr> placeholderData = samplePlaceholder,
       execAgents = Inl ExecError, parseAgents = (\<lambda>text. Inl SyntaxError),
       execSessions = Inl ExecError, parseSessions = (\<lambda>text. Inl SyntaxError),
       execCron = Inl ExecError, parseCron = (\<lambda>text. Inl SyntaxError),
       readdirAgents = Inl FsError,
       githubToken = None, githubFetch = Inl FetchError,
       b2lAccess = Inl FsError, b2lReadFile = Inl FsError,
       clock = 0, upperCase = (\<lambda>c. [c]), lowerCase = (\<lambda>c. [c]) \<rparr>"

definition emptyReportWorld :: "unit World" where
  "emptyReportWorld = quietWorld \<lparr> b2lAccess := Inr (), b2lReadFile := Inr [] \<rparr>"

definition jobFar :: OpenClawJob where
  "jobFar = \<lparr> job_id = None, job_name = Some (js ''far''), job_payload = None,
     job_state = Some (emptyState \<lparr> st_nextRunAtMs := Some 10000000000000000 \<rparr>) \<rparr>"

definition brokenCronWorld :: "unit World" where
  "brokenCronWorld =
     quietWorld \<lparr> execCron := Inr (js ''{}''), parseCron := (\<lambda>text. Inr (Response (Some [jobFar]))) \<rparr>"

definition liveAgentsWorld :: "unit World" where
  "liveAgentsWorld =
     quietWorld \<lparr> execAgents := Inr (js ''{}''),
                  parseAgents := (\<lambda>text. Inr (Response (Some [agentClawd]))),
                  execSessions := Inr (js ''{}''),
                  parseSessions := (\<lambda>text. Inr (Response (Some [sessionClawd]))) \<rparr>"

lemma run_braces: "runOpenClawJson jsonParse (Inr (js ''{}'')) = parsed jsonParse (js ''{}'')"
proof -
  have t: "trim (js ''{}'') = js ''{}''"
    by (simp add: trim_def trimStart_def trimEnd_def isSpace_def js_def)
  have s: "searchOpenBracket (js ''{}'') = Some 0"
    by (simp add: searchOpenBracket_def openBracketRe_def re_eval js_def)
  show ?thesis
    by (simp add: runOpenClawJson_def t s andThen_def tryCatch_def parsed_def split: sum.splits)
qed

lemma parse_empty: "parseB2LHorses [] = []"
  by (simp add: parse_eval)

lemma quiet_agents:
  "fetchAgentData (upperCase quietWorld) (parseAgents quietWorld) (execAgents quietWorld)
     (parseSessions quietWorld) (execSessions quietWorld) (readdirAgents quietWorld) = Inr None"
  by (simp add: quietWorld_def fetchAgentData_null runOpenClawJson_exec_failed)

lemma quiet_projects:
  "fetchGitHubProjects (lowerCase quietWorld) (clock quietWorld) (githubToken quietWorld)
     (githubFetch quietWorld) = Inr (Some unavailableProjects)"
  by (simp add: quietWorld_def fetchGitHubProjects_unavailable)

lemma quiet_crons:
  "fetchCronStatus (parseCron quietWorld) (execCron quietWorld) = Inr None"
  by (simp add: quietWorld_def fetchCronStatus_null runOpenClawJson_exec_failed)

lemma quiet_trading:
  "fetchB2LData (b2lAccess quietWorld) (b2lReadFile quietWorld) = Inr None"
  by (simp add: quietWorld_def fetchB2LData_null)

lemma build_quiet: "buildLiveData quietWorld = Inr samplePlaceholder"
  unfolding buildLiveData_def quiet_agents quiet_projects quiet_crons quiet_trading
  by (simp add: andThen_def applyLive_def unavailableProjects_def quietWorld_def)

lemma empty_trading:
  "fetchB2LData (b2lAccess emptyReportWorld) (b2lReadFile emptyReportWorld) = Inr (Some (tradingOf []))"
  by (simp add: emptyReportWorld_def fetchB2LData_def tryCatch_def andThen_def parse_empty)

lemma empty_others:
  "fetchAgentData (upperCase emptyReportWorld) (parseAgents emptyReportWorld) (execAgents emptyReportWorld)
     (parseSessions emptyReportWorld) (execSessions emptyReportWorld) (readdirAgents emptyReportWorld) = Inr None"
  "fetchGitHubProjects (lowerCase emptyReportWorld) (clock emptyReportWorld) (githubToken emptyReportWorld)
     (githubFetch emptyReportWorld) = Inr (Some unavailableProjects)"
  "fetchCronStatus (parseCron emptyReportWorld) (execCron emptyReportWorld) = Inr None"
  using quiet_agents quiet_projects quiet_crons by (simp_all add: emptyReportWorld_def)

lemma build_empty:
  "buildLiveData emptyReportWorld = Inr (samplePlaceholder \<lparr> trading := tradingOf [] \<rparr>)"
  unfolding buildLiveData_def empty_others empty_trading
  by (simp add: andThen_def applyLive_def unavailableProjects_def emptyReportWorld_def quietWorld_def)

lemma trading_differs: "samplePlaceholder \<lparr> trading := tradingOf [] \<rparr> \<noteq> samplePlaceholder"
proof
  assume "samplePlaceholder \<lparr> trading := tradingOf [] \<rparr> = samplePlaceholder"
  then have "trading (samplePlaceholder \<lparr> trading := tradingOf [] \<rparr>) = trading samplePlaceholder"
    by simp
  then have "dailyStatus (trading_status (tradingOf [])) = dailyStatus (trading_status (trading samplePlaceholder))"
    by simp
  then show False by (simp add: tradingOf_def samplePlaceholder_def js_def)
qed

lemma mapJob_far: "mapJob jobFar = Inl RangeError"
  by (simp add: mapJob_def jobFar_def emptyState_def nullish_def formatTimestamp_def
      dateToISOString_def andThen_def)

lemma broken_crons:
  "fetchCronStatus (parseCron brokenCronWorld) (execCron brokenCronWorld) = Inl RangeError"
  by (simp add: brokenCronWorld_def fetchCronStatus_def run_braces parsed_def andThen_def
      cronStatus_def extractJobs_def mapJob_far)

lemma build_broken: "buildLiveData brokenCronWorld = Inl RangeError"
proof -
  have a: "fetchAgentData (upperCase brokenCronWorld) (parseAgents brokenCronWorld) (execAgents brokenCronWorld)
     (parseSessions brokenCronWorld) (execSessions brokenCronWorld) (readdirAgents brokenCronWorld) = Inr None"
    using quiet_agents by (simp add: brokenCronWorld_def)
  have p: "fetchGitHubProjects (lowerCase brokenCronWorld) (clock brokenCronWorld) (githubToken brokenCronWorld)
     (githubFetch brokenCronWorld) = Inr (Some unavailableProjects)"
    using quiet_projects by (simp add: brokenCronWorld_def)
  show ?thesis
    unfolding buildLiveData_def a p broken_crons by (simp add: andThen_def)
qed

lemma live_agents:
  "fetchAgentData (upperCase liveAgentsWorld) (parseAgents liveAgentsWorld) (execAgents liveAgentsWorld)
     (parseSessions liveAgentsWorld) (execSessions liveAgentsWorld) (readdirAgents liveAgentsWorld)
   = Inr (Some [recordClawd])"
  by (simp add: liveAgentsWorld_def quietWorld_def fetchAgentData_def run_braces parsed_def andThen_def
      reconcile_Clawd getDefinedSubAgentsList_def)

lemma build_live:
  "buildLiveData liveAgentsWorld = Inr (samplePlaceholder \<lparr> agents := [recordClawd] \<rparr>)"
proof -
  have p: "fetchGitHubProjects (lowerCase liveAgentsWorld) (clock liveAgentsWorld) (githubToken liveAgentsWorld)
     (githubFetch liveAgentsWorld) = Inr (Some unavailableProjects)"
    using quiet_projects by (simp add: liveAgentsWorld_def)
  have c: "fetchCronStatus (parseCron liveAgentsWorld) (execCron liveAgentsWorld) = Inr None"
    using quiet_crons by (simp add: liveAgentsWorld_def)
  have t: "fetchB2LData (b2lAccess liveAgentsWorld) (b2lReadFile liveAgentsWorld) = Inr None"
    using quiet_trading by (simp add: liveAgentsWorld_def)
  show ?thesis
    unfolding buildLiveData_def live_agents p c t
    by (simp add: andThen_def applyLive_def unavailableProjects_def liveAgentsWorld_def quietWorld_def)
qed

lemma applyLive_sections:
  "agents (applyLive baseline a p c t)
     = (case a of Some x \<Rightarrow> if x \<noteq> [] then x else agents baseline | None \<Rightarrow> agents baseline)"
  "projects (applyLive baseline a p c t)
     = (case p of Some x \<Rightarrow> if active x \<noteq> [] then x else projects baseline | None \<Rightarrow> projects baseline)"
  "crons (applyLive baseline a p c t)
     = (case c of Some x \<Rightarrow> if jobs x \<noteq> [] then x else crons baseline | None \<Rightarrow> crons baseline)"
  "trading (applyLive baseline a p c t) = (case t of Some x \<Rightarrow> x | None \<Rightarrow> trading baseline)"
  "otherSections (applyLive baseline a p c t) = otherSections baseline"
  by (simp_all add: applyLive_def Let_def split: option.splits)

lemma applyLive_nothing:
  assumes "a = None \<or> a = Some []" and "p = None \<or> (\<exists>x. p = Some x \<and> active x = [])"
    and "c = None \<or> (\<exists>x. c = Some x \<and> jobs x = [])"
  shows "applyLive baseline a p c None = baseline"
  using assms by (auto simp: applyLive_def Let_def)

lemma buildLiveData_iff:
  "buildLiveData w = Inr snapshot \<longleftrightarrow>
     (\<exists>a p c t.
        fetchAgentData (upperCase w) (parseAgents w) (execAgents w) (parseSessions w)
          (execSessions w) (readdirAgents w) = Inr a
      \<and> fetchGitHubProjects (lowerCase w) (clock w) (githubToken w) (githubFetch w) = Inr p
      \<and> fetchCronStatus (parseCron w) (execCron w) = Inr c
      \<and> fetchB2LData (b2lAccess w) (b2lReadFile w) = Inr t
      \<and> snapshot = applyLive (placeholderData w) a p c t)"
  by (auto simp: buildLiveData_def andThen_def split: sum.splits)

text \<open>
  C2 (as amended).  The agents, projects and crons sections of the assembled snapshot are
  the adapter's result when it is there and not empty (agents, active projects, jobs), and
  the section of the baseline otherwise.  The trading section is the adapter's result
  whenever it is not null, also when it holds no horse, and the section of the baseline
  otherwise.  The other sections are those of the baseline.  When the trading adapter
  returns null and the other three return null or empty results, the snapshot is the
  baseline.  The snapshot of a request is assembled this way from the results of the four
  adapters, when none of them throws.
\<close>

theorem C2_merge_policy:
  "agents (applyLive baseline a p c t)
     = (case a of Some x \<Rightarrow> if x \<noteq> [] then x else agents baseline | None \<Rightarrow> agents baseline)
   \<and> projects (applyLive baseline a p c t)
     = (case p of Some x \<Rightarrow> if active x \<noteq> [] then x else projects baseline | None \<Rightarrow> projects baseline)
   \<and> crons (applyLive baseline a p c t)
     = (case c of Some x \<Rightarrow> if jobs x \<noteq> [] then x else crons baseline | None \<Rightarrow> crons baseline)
   \<and> trading (applyLive baseline a p c t) = (case t of Some x \<Rightarrow> x | None \<Rightarrow> trading baseline)
   \<and> otherSections (applyLive baseline a p c t) = otherSections baseline
   \<and> ((a = None \<or> a = Some []) \<and> (p = None \<or> (\<exists>x. p = Some x \<and> active x = []))
        \<and> (c = None \<or> (\<exists>x. c = Some x \<and> jobs x = [])) \<longrightarrow>
          applyLive baseline a p c None = baseline)
   \<and> (buildLiveData w = Inr snapshot \<longleftrightarrow>
        (\<exists>a p c t.
           fetchAgentData (upperCase w) (parseAgents w) (execAgents w) (parseSessions w)
             (execSessions w) (readdirAgents w) = Inr a
         \<and> fetchGitHubProjects (lowerCase w) (clock w) (githubToken w) (githubFetch w) = Inr p
         \<and> fetchCronStatus (parseCron w) (execCron w) = Inr c
         \<and> fetchB2LData (b2lAccess w) (b2lReadFile w) = Inr t
         \<and> snapshot = applyLive (placeholderData w) a p c t))"
  using applyLive_sections[of baseline a p c t] applyLive_nothing[of a p c baseline]
    buildLiveData_iff[of w snapshot]
  by blast

theorem C2_merge_policy_witness:
  "applyLive samplePlaceholder None (Some unavailableProjects) None None = samplePlaceholder
   \<and> buildLiveData quietWorld = Inr samplePlaceholder
   \<and> buildLiveData liveAgentsWorld = Inr (samplePlaceholder \<lparr> agents := [recordClawd] \<rparr>)
   \<and> agents (applyLive samplePlaceholder (Some [recordClawd]) (Some unavailableProjects) None None)
       = [recordClawd]"
proof -
  have e: "active unavailableProjects = []" by (simp add: unavailableProjects_def)
  from C2_merge_policy[of samplePlaceholder None "Some unavailableProjects" None None quietWorld samplePlaceholder] e
  have 1: "applyLive samplePlaceholder None (Some unavailableProjects) None None = samplePlaceholder"
    by blast
  from C2_merge_policy[of samplePlaceholder "Some [recordClawd]" "Some unavailableProjects" None None quietWorld
      samplePlaceholder]
  have 2: "agents (applyLive samplePlaceholder (Some [recordClawd]) (Some unavailableProjects) None None)
       = [recordClawd]"
    by simp
  show ?thesis using 1 2 build_quiet build_live by simp
qed

text \<open>
  C2 as stated fails: when the report file is there and holds no entry of the day, the
  trading adapter returns a result with no horse, every other adapter returns null or an
  empty result, and the assembled snapshot is not the baseline: its trading section is the
  adapter's.
\<close>

theorem C2_counterexample:
  "fetchAgentData (upperCase emptyReportWorld) (parseAgents emptyReportWorld)
       (execAgents emptyReportWorld) (parseSessions emptyReportWorld)
       (execSessions emptyReportWorld) (readdirAgents emptyReportWorld) = Inr None
   \<and> fetchGitHubProjects (lowerCase emptyReportWorld) (clock emptyReportWorld)
       (githubToken emptyReportWorld) (githubFetch emptyReportWorld) = Inr (Some unavailableProjects)
   \<and> active unavailableProjects = []
   \<and> fetchCronStatus (parseCron emptyReportWorld) (execCron emptyReportWorld) = Inr None
   \<and> fetchB2LData (b2lAccess emptyReportWorld) (b2lReadFile emptyReportWorld)
       = Inr (Some (tradingOf []))
   \<and> qualifiedHorses (tradingOf []) = []
   \<and> placeholderData emptyReportWorld = samplePlaceholder
   \<and> buildLiveData emptyReportWorld = Inr (samplePlaceholder \<lparr> trading := tradingOf [] \<rparr>)
   \<and> samplePlaceholder \<lparr> trading := tradingOf [] \<rparr> \<noteq> samplePlaceholder"
  using empty_others empty_trading build_empty trading_differs
  by (simp add: unavailableProjects_def tradingOf_def emptyReportWorld_def quietWorld_def)

text \<open>
  C6.  The response of the handler has status 200 in every world: its body is the
  assembled snapshot when the assembly succeeds, and the placeholder when it throws.
\<close>

theorem C6_status_always_200:
  "http_status (GET w) = 200
   \<and> (\<forall>data. buildLiveData w = Inr data \<longrightarrow> body (GET w) = data)
   \<and> (\<forall>error. buildLiveData w = Inl error \<longrightarrow> body (GET w) = placeholderData w)"
  by (simp add: GET_def split: sum.splits)

theorem C6_status_always_200_witness:
  "buildLiveData liveAgentsWorld = Inr (samplePlaceholder \<lparr> agents := [recordClawd] \<rparr>)
   \<and> GET liveAgentsWorld = \<lparr> http_status = 200, body = samplePlaceholder \<lparr> agents := [recordClawd] \<rparr> \<rparr>
   \<and> buildLiveData brokenCronWorld = Inl RangeError
   \<and> GET brokenCronWorld = \<lparr> http_status = 200, body = samplePlaceholder \<rparr>"
proof -
  from C6_status_always_200[of liveAgentsWorld] build_live
  have 1: "http_status (GET liveAgentsWorld) = 200"
    "body (GET liveAgentsWorld) = samplePlaceholder \<lparr> agents := [recordClawd] \<rparr>"
    by simp_all
  from C6_status_always_200[of brokenCronWorld] build_broken
  have 2: "http_status (GET brokenCronWorld) = 200"
    "body (GET brokenCronWorld) = placeholderData brokenCronWorld"
    by simp_all
  have p: "placeholderData brokenCronWorld = samplePlaceholder"
    by (simp add: brokenCronWorld_def quietWorld_def)
  have eq: "\<And>r :: unit HttpResponse. r = \<lparr> http_status = http_status r, body = body r \<rparr>"
    by simp
  show ?thesis
    using build_live build_broken eq[of "GET liveAgentsWorld"] eq[of "GET brokenCronWorld"] 1 2 p
    by simp
qed

text \<open>
  C4 (as amended).  No adapter raises on a failure of its source.  The CLI call returns
  null when the process fails (transport error, timeout, non-zero exit), when its output
  holds no bracket and when the parse fails.  The cron adapter returns null when its call
  does, and the report reader returns null when the file is missing or cannot be read.
  The agents adapter returns null when its call for the agents does, or gives no agent.
  When only its call for the sessions fails it does not return null: it returns the
  record of every agent with no session (Idle, no tokens, no cost), followed by the Idle
  records of the defined sub-agents; a folder of sub-agents that cannot be read counts as
  empty.  The issue-tracker adapter never returns null: without a token, on a transport
  error or a timeout, on a response that is not ok, on a body that does not parse and on
  GraphQL errors it returns the object of status \<open>unavailable\<close> with empty lists.
\<close>

theorem C4_adapter_failure_contract:
  "(\<exists>r. runOpenClawJson jsonParse execFile = Inr r)
   \<and> runOpenClawJson jsonParse (Inl e) = Inr None
   \<and> (searchOpenBracket (trim stdout) = None \<longrightarrow> runOpenClawJson jsonParse (Inr stdout) = Inr None)
   \<and> (searchOpenBracket (trim stdout) = Some start \<and> jsonParse (drop start (trim stdout)) = Inl e \<longrightarrow>
        runOpenClawJson jsonParse (Inr stdout) = Inr None)
   \<and> (\<exists>r. fetchAgentData uc pA eA pS eS rd = Inr r)
   \<and> (runOpenClawJson pA eA = Inr None \<longrightarrow> fetchAgentData uc pA eA pS eS rd = Inr None)
   \<and> (runOpenClawJson pA eA = Inr (Some p) \<and> extractAgents p = [] \<longrightarrow>
        fetchAgentData uc pA eA pS eS rd = Inr None)
   \<and> (runOpenClawJson pA eA = Inr (Some p) \<and> extractAgents p \<noteq> []
        \<and> runOpenClawJson pS eS = Inr None \<longrightarrow>
        fetchAgentData uc pA eA pS eS rd
          = Inr (Some (map (primaryRecord []) (extractAgents p)
                         @ map (\<lambda>f. idleRecord (displayName uc f)) (getDefinedSubAgentsList rd))))
   \<and> primaryRecord [] agent
        = \<lparr> name = orElse (agent_identityName agent) (orElse (agent_id agent) (js ''Unknown'')),
            state = js ''Idle'', sessions = 0, tokens = 0, cost = 0,
            model = orElse (agent_model agent) defaultModel, tasks = [] \<rparr>
   \<and> getDefinedSubAgentsList (Inl e) = []
   \<and> (runOpenClawJson pC eC = Inr None \<longrightarrow> fetchCronStatus pC eC = Inr None)
   \<and> (\<exists>r. fetchB2LData access readFile = Inr r)
   \<and> fetchB2LData (Inl e) readFile = Inr None
   \<and> fetchB2LData access (Inl e) = Inr None
   \<and> (\<exists>p. fetchGitHubProjects lc now token fetched = Inr (Some p))
   \<and> (orElse token [] = [] \<longrightarrow>
        fetchGitHubProjects lc now token fetched = Inr (Some unavailableProjects))
   \<and> fetchGitHubProjects lc now token (Inl e) = Inr (Some unavailableProjects)
   \<and> (\<not> resp_ok response \<or> resp_json response = Inl e
        \<or> (\<exists>g. resp_json response = Inr g \<and> gql_errors g) \<longrightarrow>
        fetchGitHubProjects lc now token (Inr response) = Inr (Some unavailableProjects))"
  using runOpenClawJson_total[of jsonParse execFile] runOpenClawJson_exec_failed[of jsonParse e]
    runOpenClawJson_no_bracket[of stdout jsonParse]
    runOpenClawJson_parse_failed[of stdout start jsonParse e]
    fetchAgentData_total[of uc pA eA pS eS rd] fetchAgentData_null[of pA eA uc pS eS rd]
    fetchAgentData_no_agents[of pA eA p uc pS eS rd]
    fetchAgentData_sessions_failed[of pA eA p pS eS uc rd]
    primaryRecord_no_sessions[of agent] getDefinedSubAgentsList_failed[of e]
    fetchCronStatus_null[of pC eC] fetchB2LData_total[of access readFile]
    fetchB2LData_null(1)[of e readFile] fetchB2LData_null(2)[of access e]
    fetchGitHubProjects_total[of lc now token fetched]
    fetchGitHubProjects_unavailable(1)[of token lc now fetched]
    fetchGitHubProjects_unavailable(2)[of lc now token e]
    fetchGitHubProjects_unavailable(3)[of response lc now token]
    fetchGitHubProjects_unavailable(4)[of response e lc now token]
    fetchGitHubProjects_unavailable(5)[of response _ lc now token]
  by blast

definition refusedResponse :: GitHubResponse where
  "refusedResponse = \<lparr> resp_ok = False, resp_text = Inr (js ''Bad credentials''),
     resp_json = Inl SyntaxError \<rparr>"

text \<open>The record of the agent of the scenario when it has no session.\<close>

definition recordClawdIdle :: AgentRecord where
  "recordClawdIdle = \<lparr> name = js ''Clawd'', state = js ''Idle'', sessions = 0, tokens = 0,
     cost = 0, model = defaultModel, tasks = [] \<rparr>"

theorem C4_adapter_failure_contract_witness:
  "runOpenClawJson (\<lambda>text. Inl SyntaxError :: exn + unit) (Inl ExecError) = Inr None
   \<and> runOpenClawJson (\<lambda>text. Inl SyntaxError :: exn + unit) (Inr (js ''no json here'')) = Inr None
   \<and> runOpenClawJson (\<lambda>text. Inl SyntaxError :: exn + unit) (Inr (js ''{}'')) = Inr None
   \<and> fetchAgentData (\<lambda>c. [c]) (\<lambda>text. Inl SyntaxError) (Inl ExecError) (\<lambda>text. Inl SyntaxError)
       (Inl ExecError) (Inl FsError) = Inr None
   \<and> fetchAgentData (\<lambda>c. [c]) (\<lambda>text. Inr (Response (Some []))) (Inr (js ''{}''))
       (\<lambda>text. Inl SyntaxError) (Inl ExecError) (Inl FsError) = Inr None
   \<and> fetchAgentData (\<lambda>c. [c]) (\<lambda>text. Inr (Response (Some [agentClawd]))) (Inr (js ''{}''))
       (\<lambda>text. Inl SyntaxError) (Inl ExecError) (Inl FsError) = Inr (Some [recordClawdIdle])
   \<and> fetchCronStatus (\<lambda>text. Inl SyntaxError) (Inl ExecError) = Inr None
   \<and> fetchB2LData (Inl FsError) (Inl FsError) = Inr None
   \<and> fetchGitHubProjects (\<lambda>c. [c]) 0 None (Inl FetchError) = Inr (Some unavailableProjects)
   \<and> fetchGitHubProjects (\<lambda>c. [c]) 0 (Some (js ''token'')) (Inr refusedResponse)
       = Inr (Some unavailableProjects)"
proof -
  have t1: "searchOpenBracket (trim (js ''no json here'')) = None"
    by (simp add: searchOpenBracket_def openBracketRe_def re_eval trim_def trimStart_def
        trimEnd_def isSpace_def js_def)
  have t2: "searchOpenBracket (trim (js ''{}'')) = Some 0"
    by (simp add: searchOpenBracket_def openBracketRe_def re_eval trim_def trimStart_def
        trimEnd_def isSpace_def js_def)
  have r: "\<not> resp_ok refusedResponse" by (simp add: refusedResponse_def)
  note c1 = C4_adapter_failure_contract[where jsonParse = "\<lambda>text. Inl SyntaxError :: exn + unit"
      and e = ExecError and stdout = "js ''no json here''" and start = 0
      and uc = "\<lambda>c. [c]" and pA = "\<lambda>text. Inl SyntaxError" and eA = "Inl ExecError"
      and pS = "\<lambda>text. Inl SyntaxError" and eS = "Inl ExecError" and rd = "Inl FsError"
      and pC = "\<lambda>text. Inl SyntaxError" and eC = "Inl ExecError"
      and access = "Inl FsError" and readFile = "Inl FsError"
      and lc = "\<lambda>c. [c]" and now = 0 and token = None and fetched = "Inl FetchError"
      and response = refusedResponse]
  note c2 = C4_adapter_failure_contract[where jsonParse = "\<lambda>text. Inl SyntaxError :: exn + unit"
      and e = SyntaxError and stdout = "js ''{}''" and start = 0
      and lc = "\<lambda>c. [c]" and now = 0 and token = "Some (js ''token'')" and response = refusedResponse]
  have a: "runOpenClawJson (\<lambda>text. Inl SyntaxError :: exn + OpenClawAgent payload) (Inl ExecError) = Inr None"
    by (simp add: runOpenClawJson_exec_failed)
  have c: "runOpenClawJson (\<lambda>text. Inl SyntaxError :: exn + OpenClawJob payload) (Inl ExecError) = Inr None"
    by (simp add: runOpenClawJson_exec_failed)
  note c3 = C4_adapter_failure_contract[where jsonParse = "\<lambda>text. Inl SyntaxError :: exn + unit"
      and e = FsError and readFile = "Inl FsError"]
  note c4 = C4_adapter_failure_contract[where jsonParse = "\<lambda>text. Inl SyntaxError :: exn + unit"
      and e = FetchError and lc = "\<lambda>c. [c]" and now = 0 and token = None]
  from c1 t1 a c have
    "runOpenClawJson (\<lambda>text. Inl SyntaxError :: exn + unit) (Inl ExecError) = Inr None"
    "runOpenClawJson (\<lambda>text. Inl SyntaxError :: exn + unit) (Inr (js ''no json here'')) = Inr None"
    "fetchAgentData (\<lambda>c. [c]) (\<lambda>text. Inl SyntaxError) (Inl ExecError) (\<lambda>text. Inl SyntaxError)
       (Inl ExecError) (Inl FsError) = Inr None"
    "fetchCronStatus (\<lambda>text. Inl SyntaxError) (Inl ExecError) = Inr None"
    by blast+
  moreover from c3 have "fetchB2LData (Inl FsError) (Inl FsError) = Inr None"
    by blast
  moreover from c4 have
    "fetchGitHubProjects (\<lambda>c. [c]) 0 None (Inl FetchError) = Inr (Some unavailableProjects)"
    by blast
  moreover from c2 t2 r have
    "runOpenClawJson (\<lambda>text. Inl SyntaxError :: exn + unit) (Inr (js ''{}'')) = Inr None"
    "fetchGitHubProjects (\<lambda>c. [c]) 0 (Some (js ''token'')) (Inr refusedResponse)
       = Inr (Some unavailableProjects)"
    by blast+
  moreover have "fetchAgentData (\<lambda>c. [c]) (\<lambda>text. Inr (Response (Some []))) (Inr (js ''{}''))
       (\<lambda>text. Inl SyntaxError) (Inl ExecError) (Inl FsError) = Inr None"
  proof -
    have a: "runOpenClawJson (\<lambda>text. Inr (Response (Some [])) :: exn + OpenClawAgent payload)
        (Inr (js ''{}'')) = Inr (Some (Response (Some [])))"
      by (simp add: run_braces parsed_def)
    have x: "extractAgents (Response (Some [])) = []" by (simp add: extractAgents_def)
    from C4_adapter_failure_contract[where jsonParse = "\<lambda>text. Inl SyntaxError :: exn + unit"
        and pA = "\<lambda>text. Inr (Response (Some []))" and eA = "Inr (js ''{}'')"
        and p = "Response (Some [])" and uc = "\<lambda>c. [c]" and pS = "\<lambda>text. Inl SyntaxError"
        and eS = "Inl ExecError" and rd = "Inl FsError"] a x
    show ?thesis by blast
  qed
  moreover have "fetchAgentData (\<lambda>c. [c]) (\<lambda>text. Inr (Response (Some [agentClawd])))
       (Inr (js ''{}'')) (\<lambda>text. Inl SyntaxError) (Inl ExecError) (Inl FsError)
     = Inr (Some [recordClawdIdle])"
  proof -
    have a: "runOpenClawJson (\<lambda>text. Inr (Response (Some [agentClawd]))) (Inr (js ''{}''))
        = Inr (Some (Response (Some [agentClawd])))"
      by (simp add: run_braces parsed_def)
    have s: "runOpenClawJson (\<lambda>text. Inl SyntaxError :: exn + OpenClawSession payload)
        (Inl ExecError) = Inr None"
      by (simp add: runOpenClawJson_exec_failed)
    have x: "extractAgents (Response (Some [agentClawd])) = [agentClawd]"
      by (simp add: extractAgents_def)
    note c5 = C4_adapter_failure_contract[where jsonParse = "\<lambda>text. Inl SyntaxError :: exn + unit"
        and pA = "\<lambda>text. Inr (Response (Some [agentClawd]))" and eA = "Inr (js ''{}'')"
        and p = "Response (Some [agentClawd])" and uc = "\<lambda>c. [c]"
        and pS = "\<lambda>text. Inl SyntaxError" and eS = "Inl ExecError" and rd = "Inl FsError"
        and agent = agentClawd and e = FsError]
    from c5 a s x have
      "fetchAgentData (\<lambda>c. [c]) (\<lambda>text. Inr (Response (Some [agentClawd])))
         (Inr (js ''{}'')) (\<lambda>text. Inl SyntaxError) (Inl ExecError) (Inl FsError)
       = Inr (Some (map (primaryRecord []) [agentClawd]
                      @ map (\<lambda>f. idleRecord (displayName (\<lambda>c. [c]) f))
                            (getDefinedSubAgentsList (Inl FsError))))"
      by simp
    moreover from c5 have "primaryRecord [] agentClawd = recordClawdIdle"
      by (simp add: agentClawd_def recordClawdIdle_def)
    moreover from c5 have "getDefinedSubAgentsList (Inl FsError) = []" by blast
    ultimately show ?thesis by simp
  qed
  ultimately show ?thesis by simp
qed

text \<open>
  C4 as stated fails twice.  For the issue tracker: without a token (and on a transport
  error) the adapter returns the \<open>unavailable\<close> object, not null.  For the agents
  adapter: when the call for the agents succeeds and the call for the sessions fails, it
  returns the Idle record of the agent, not null.
\<close>

theorem C4_counterexample:
  "fetchGitHubProjects (\<lambda>c. [c]) 0 None (Inl FetchError) = Inr (Some unavailableProjects)
   \<and> (Inr (Some unavailableProjects) :: exn + Projects option) \<noteq> Inr None
   \<and> runOpenClawJson (\<lambda>text. Inl SyntaxError :: exn + OpenClawSession payload) (Inl ExecError)
       = Inr None
   \<and> fetchAgentData (\<lambda>c. [c]) (\<lambda>text. Inr (Response (Some [agentClawd]))) (Inr (js ''{}''))
       (\<lambda>text. Inl SyntaxError) (Inl ExecError) (Inl FsError) = Inr (Some [recordClawdIdle])
   \<and> (Inr (Some [recordClawdIdle]) :: exn + AgentRecord list option) \<noteq> Inr None"
proof -
  have a: "runOpenClawJson (\<lambda>text. Inr (Response (Some [agentClawd]))) (Inr (js ''{}''))
      = Inr (Some (Response (Some [agentClawd])))"
    by (simp add: run_braces parsed_def)
  have s: "runOpenClawJson (\<lambda>text. Inl SyntaxError :: exn + OpenClawSession payload)
      (Inl ExecError) = Inr None"
    by (simp add: runOpenClawJson_exec_failed)
  have "fetchAgentData (\<lambda>c. [c]) (\<lambda>text. Inr (Response (Some [agentClawd]))) (Inr (js ''{}''))
       (\<lambda>text. Inl SyntaxError) (Inl ExecError) (Inl FsError) = Inr (Some [recordClawdIdle])"
    using fetchAgentData_sessions_failed[OF a _ s, of "\<lambda>c. [c]" "Inl FsError"]
    by (simp add: extractAgents_def primaryRecord_no_sessions getDefinedSubAgentsList_failed
        agentClawd_def recordClawdIdle_def)
  then show ?thesis using s by (simp add: fetchGitHubProjects_def)
qed


end
